theory Spec2Isabelle
  imports Complex_Main "HOL-Library.Multiset"
begin

section \<open>The DOW 30 tracker: data model\<close>

text \<open>
  The repository holds two versions of one program: \<^verbatim>\<open>DOW30_Excel_Dashboard.py\<close> (names
  ending in \<open>_orig\<close> below) and \<^verbatim>\<open>DOW30_Excel_Dashboard_fixed.py\<close> (names ending in
  \<open>_fixed\<close>). What the two files share word for word (the configuration, \<open>ensure_workbook\<close>,
  the merge loop of \<open>_fetch\<close>) is modelled once.

  Modelling decisions.
  \<^item> A Python \<open>float\<close> price is the rational number it denotes; \<open>round(price, 2)\<close> is
    the decimal with two places nearest to it, ties to the even neighbour. NaN and the
    infinities are not modelled.
  \<^item> A \<open>datetime\<close> is the number of microseconds since midnight of day 0, a \<open>date\<close> the
    number of days; both naive, as in the source.
  \<^item> The files in \<open>Saved DOW Sheets\<close> are a map from the date in the file name to the
    sheet \<open>Prices\<close>; a sheet maps (row, column), both counted from 1, to a cell, and a cell
    that was never written is blank and unstyled, as openpyxl creates it on first access.
  \<^item> An exception (an instance of Python's \<open>Exception\<close>) is a value of \<open>exn\<close>; code that
    may raise returns a sum with the exception on the left.
\<close>

type_synonym symbol = string
type_synonym label = string
type_synonym date = int
type_synonym datetime = int

datatype exn = NetworkError | KeyError | IndexError | ValueError string | OSError

datatype cellval = Blank | Num rat | Txt string

text \<open>The fill and font of a cell: \<open>up_fill\<close> with \<open>green\<close>, \<open>down_fill\<close> with \<open>red\<close>, or
  the default style.\<close>

datatype marker = Neutral | Up | Down

record cell =
  cval :: cellval
  mark :: marker

type_synonym sheet = "nat \<times> nat \<Rightarrow> cell"

definition TICKERS :: "symbol list" where
  "TICKERS =
    [''AAPL'', ''AMGN'', ''AXP'', ''BA'', ''CAT'', ''CRM'', ''CSCO'', ''CVX'', ''DIS'', ''DOW'',
     ''GS'', ''HD'', ''HON'', ''IBM'', ''INTC'', ''JNJ'', ''JPM'', ''KO'', ''MCD'', ''MMM'',
     ''MRK'', ''MSFT'', ''NKE'', ''PG'', ''TRV'', ''UNH'', ''V'', ''VZ'', ''WBA'', ''WMT'']"

text \<open>The dict \<open>HOURS\<close>, in insertion order (the order \<open>items()\<close> and \<open>values()\<close> iterate in).\<close>

definition HOURS :: "(nat \<times> label) list" where
  "HOURS =
    [(9, ''9:31 AM''), (10, ''10:00 AM''), (11, ''11:00 AM''), (12, ''12 NOON''),
     (13, ''1:00 PM''), (14, ''2:00 PM''), (15, ''3:00 PM''), (16, ''4:00 PM'')]"

subsection \<open>Dates and times\<close>

definition usec_per_minute :: int where
  "usec_per_minute = 60000000"

definition usec_per_hour :: int where
  "usec_per_hour = 3600000000"

definition usec_per_day :: int where
  "usec_per_day = 86400000000"

text \<open>\<open>datetime.combine(d, dtime(hour=h))\<close>, for an hour below 24.\<close>

definition combine :: "date \<Rightarrow> nat \<Rightarrow> datetime" where
  "combine d h = d * usec_per_day + int h * usec_per_hour"

text \<open>\<open>now.date()\<close> and \<open>now.hour\<close>.\<close>

definition date_of :: "datetime \<Rightarrow> date" where
  "date_of t = t div usec_per_day"

definition hour_of :: "datetime \<Rightarrow> nat" where
  "hour_of t = nat ((t mod usec_per_day) div usec_per_hour)"

text \<open>\<open>timedelta(minutes=n)\<close>.\<close>

definition timedelta_minutes :: "int \<Rightarrow> int" where
  "timedelta_minutes n = n * usec_per_minute"

subsection \<open>Rounding\<close>

text \<open>\<open>round(price, 2)\<close> on a float: the nearest decimal with two places, a tie going to
  the even last digit.\<close>

definition py_round2 :: "rat \<Rightarrow> rat" where
  "py_round2 x =
    (let y = x * 100; f = \<lfloor>y\<rfloor>; d = y - of_int f
     in of_int (if d < 1 / 2 then f else if 1 / 2 < d then f + 1
                else if even f then f else f + 1) / 100)"

text \<open>A number with at most two decimal places.\<close>

definition is_2dp :: "rat \<Rightarrow> bool" where
  "is_2dp x = (of_int \<lfloor>x * 100\<rfloor> = x * 100)"

subsection \<open>The worksheet\<close>

text \<open>openpyxl's \<open>Worksheet.cell(row, column, value=None)\<close>: the cell is fetched (created
  blank if it does not exist yet), and its value is set only when \<open>value is not None\<close>.
  Both callers pass a row and a column of at least 1, so its \<open>ValueError\<close> cannot occur.\<close>

definition ws_cell :: "sheet \<Rightarrow> nat \<Rightarrow> nat \<Rightarrow> rat option \<Rightarrow> sheet" where
  "ws_cell ws r c v =
    (case v of
       None \<Rightarrow> ws
     | Some x \<Rightarrow> ws ((r, c) := (ws (r, c)) \<lparr>cval := Num x\<rparr>))"

text \<open>\<open>cell.fill, cell.font = up_fill, green\<close> (or \<open>down_fill, red\<close>).\<close>

definition set_style :: "sheet \<Rightarrow> nat \<Rightarrow> nat \<Rightarrow> marker \<Rightarrow> sheet" where
  "set_style ws r c m = ws ((r, c) := (ws (r, c)) \<lparr>mark := m\<rparr>)"

text \<open>One pass of the body of \<open>for r, price in enumerate(prices, start=2)\<close> in \<open>_fetch\<close>:
  \<open>val\<close> is the rounded price or \<open>None\<close>, \<open>prev\<close> the value of the cell to the left, read
  after the write; the style is touched only when both are numbers and differ.\<close>

definition merge_row :: "nat \<Rightarrow> nat \<Rightarrow> rat option \<Rightarrow> sheet \<Rightarrow> sheet" where
  "merge_row col r price ws =
    (let val = map_option py_round2 price;
         ws1 = ws_cell ws r col val;
         prev = cval (ws1 (r, col - 1))
     in case (prev, val) of
          (Num pv, Some v) \<Rightarrow>
            if pv < v then set_style ws1 r col Up
            else if v < pv then set_style ws1 r col Down
            else ws1
        | _ \<Rightarrow> ws1)"

fun merge_rows :: "nat \<Rightarrow> nat \<Rightarrow> rat option list \<Rightarrow> sheet \<Rightarrow> sheet" where
  "merge_rows col r [] ws = ws"
| "merge_rows col r (price # prices) ws = merge_rows col (Suc r) prices (merge_row col r price ws)"

text \<open>\<open>list(HOURS.values()).index(label)\<close>: the first position of the label, or
  \<open>ValueError\<close>.\<close>

fun index_of :: "'a \<Rightarrow> 'a list \<Rightarrow> nat option" where
  "index_of x [] = None"
| "index_of x (y # ys) = (if x = y then Some 0 else map_option Suc (index_of x ys))"

text \<open>The workbook \<open>ensure_workbook\<close> creates: the header row, then one row per ticker
  with the eight slot cells \<open>None\<close>.\<close>

definition header_row :: "cellval list" where
  "header_row = Txt ''Ticker'' # map (\<lambda>(h, lbl). Txt lbl) HOURS"

definition ticker_row :: "symbol \<Rightarrow> cellval list" where
  "ticker_row t = Txt t # replicate (length HOURS) Blank"

definition blank_cell :: cell where
  "blank_cell = \<lparr>cval = Blank, mark = Neutral\<rparr>"

text \<open>A sheet from its rows, as \<open>ws.append\<close> lays them out from cell (1, 1).\<close>

definition sheet_of_rows :: "cellval list list \<Rightarrow> sheet" where
  "sheet_of_rows rows =
    (\<lambda>(r, c). if 1 \<le> r \<and> r \<le> length rows \<and> 1 \<le> c \<and> c \<le> length (rows ! (r - 1))
               then \<lparr>cval = rows ! (r - 1) ! (c - 1), mark = Neutral\<rparr>
               else blank_cell)"

definition new_workbook :: sheet where
  "new_workbook = sheet_of_rows (header_row # map ticker_row TICKERS)"

section \<open>The outside world and the program state\<close>

text \<open>
  What one invocation of \<open>_fetch\<close> reads from outside the program:
  \<^item> \<open>today\<close>: \<open>date.today()\<close>;
  \<^item> \<open>history symb start stop\<close>: \<open>yf.Ticker(symb).history(start, end, interval="1m")\<close>, the
    rows of the frame in chronological order, each a timestamp with its \<open>Close\<close>, or the
    exception the call raises;
  \<^item> \<open>info_price symb\<close>: \<open>yf.Ticker(symb).info.get("regularMarketPrice")\<close>;
  \<^item> \<open>quote symb\<close>: the JSON answer of the Yahoo quote endpoint, reduced to the list
    under \<open>quoteResponse.result\<close> (absent when a key is missing), each entry reduced to
    its \<open>regularMarketPrice\<close>; or the exception \<open>requests.get\<close>, \<open>raise_for_status\<close> or
    \<open>json()\<close> raises;
  \<^item> \<open>disk_ok\<close>: whether \<open>wb.save\<close> succeeds; a failing save raises \<open>OSError\<close> and
    leaves the files as they were.
\<close>

record env =
  today :: date
  history :: "symbol \<Rightarrow> datetime \<Rightarrow> datetime \<Rightarrow> exn + (datetime \<times> rat) list"
  info_price :: "symbol \<Rightarrow> exn + rat option"
  quote :: "symbol \<Rightarrow> exn + rat option list option"
  disk_ok :: bool

text \<open>The requests a lookup sends, in the order it sends them.\<close>

datatype call =
    HistoryCall symbol datetime datetime
  | InfoCall symbol
  | QuoteCall symbol

text \<open>The saved workbooks, the tracebacks printed so far and the number of \<open>updated\<close>
  signals emitted.\<close>

record state =
  store :: "date \<rightharpoonup> sheet"
  log :: "exn list"
  emitted :: nat

section \<open>Looking one symbol up: \<open>_get\<close>\<close>

text \<open>\<open>float(p) if p else None\<close>: \<open>None\<close> and zero both give \<open>None\<close>.\<close>

definition truthy_price :: "rat option \<Rightarrow> rat option" where
  "truthy_price p = (case p of None \<Rightarrow> None | Some x \<Rightarrow> if x = 0 then None else Some x)"

text \<open>The live part of \<open>_get\<close> in \<^verbatim>\<open>DOW30_Excel_Dashboard.py\<close> (lines 110 to 116):
  nothing is caught, a missing key raises \<open>KeyError\<close> and an empty result list
  \<open>IndexError\<close>.\<close>

definition live_orig :: "env \<Rightarrow> symbol \<Rightarrow> call list \<times> (exn + rat option)" where
  "live_orig e symb =
    (case info_price e symb of
       Inl x \<Rightarrow> ([InfoCall symb], Inl x)
     | Inr (Some p) \<Rightarrow> ([InfoCall symb], Inr (truthy_price (Some p)))
     | Inr None \<Rightarrow>
         (case quote e symb of
            Inl x \<Rightarrow> ([InfoCall symb, QuoteCall symb], Inl x)
          | Inr None \<Rightarrow> ([InfoCall symb, QuoteCall symb], Inl KeyError)
          | Inr (Some []) \<Rightarrow> ([InfoCall symb, QuoteCall symb], Inl IndexError)
          | Inr (Some (p # rest)) \<Rightarrow> ([InfoCall symb, QuoteCall symb], Inr (truthy_price p))))"

text \<open>\<open>_get\<close> of \<^verbatim>\<open>DOW30_Excel_Dashboard.py\<close>: with \<open>use_history\<close> and a \<open>hist_dt\<close> the
  window is queried; an empty frame falls through to the live part.\<close>

definition get_orig :: "env \<Rightarrow> bool \<Rightarrow> datetime option \<Rightarrow> symbol \<Rightarrow> call list \<times> (exn + rat option)" where
  "get_orig e use_history hist_dt symb =
    (case (if use_history then hist_dt else None) of
       Some dt \<Rightarrow>
         (let start = dt - timedelta_minutes 1;
              stop = dt + timedelta_minutes 1
          in case history e symb start stop of
               Inl x \<Rightarrow> ([HistoryCall symb start stop], Inl x)
             | Inr df \<Rightarrow>
                 if df \<noteq> [] then ([HistoryCall symb start stop], Inr (Some (snd (last df))))
                 else (HistoryCall symb start stop # fst (live_orig e symb), snd (live_orig e symb)))
     | None \<Rightarrow> live_orig e symb)"

text \<open>The live part of \<open>_get\<close> in \<^verbatim>\<open>DOW30_Excel_Dashboard_fixed.py\<close> (lines 216 to 237):
  the fallback request is inside \<open>try\<close>/\<open>except Exception\<close>, the first request is not.\<close>

definition live_fixed :: "env \<Rightarrow> symbol \<Rightarrow> call list \<times> (exn + rat option)" where
  "live_fixed e symb =
    (case info_price e symb of
       Inl x \<Rightarrow> ([InfoCall symb], Inl x)
     | Inr (Some p) \<Rightarrow> ([InfoCall symb], Inr (Some p))
     | Inr None \<Rightarrow>
         (case quote e symb of
            Inl x \<Rightarrow> ([InfoCall symb, QuoteCall symb], Inr None)
          | Inr None \<Rightarrow> ([InfoCall symb, QuoteCall symb], Inr None)
          | Inr (Some []) \<Rightarrow> ([InfoCall symb, QuoteCall symb], Inr None)
          | Inr (Some (p # rest)) \<Rightarrow> ([InfoCall symb, QuoteCall symb], Inr p)))"

text \<open>\<open>_get\<close> of \<^verbatim>\<open>DOW30_Excel_Dashboard_fixed.py\<close>: the historical branch returns on
  an empty frame.\<close>

definition get_fixed :: "env \<Rightarrow> bool \<Rightarrow> datetime option \<Rightarrow> symbol \<Rightarrow> call list \<times> (exn + rat option)" where
  "get_fixed e use_history hist_dt symb =
    (case (if use_history then hist_dt else None) of
       Some dt \<Rightarrow>
         (let start = dt - timedelta_minutes 1;
              stop = dt + timedelta_minutes 1
          in case history e symb start stop of
               Inl x \<Rightarrow> ([HistoryCall symb start stop], Inl x)
             | Inr df \<Rightarrow>
                 if df \<noteq> [] then ([HistoryCall symb start stop], Inr (Some (snd (last df))))
                 else ([HistoryCall symb start stop], Inr None))
     | None \<Rightarrow> live_fixed e symb)"

text \<open>\<open>list(ThreadPoolExecutor(8).map(_get, TICKERS))\<close>: every lookup runs; the list is
  built in ticker order and the first lookup, in that order, that raised makes \<open>list\<close>
  raise its exception.\<close>

fun collect :: "(exn + 'a) list \<Rightarrow> exn + 'a list" where
  "collect [] = Inr []"
| "collect (Inl x # rs) = Inl x"
| "collect (Inr v # rs) = (case collect rs of Inl x \<Rightarrow> Inl x | Inr vs \<Rightarrow> Inr (v # vs))"

section \<open>The workbook store\<close>

text \<open>\<open>ensure_workbook\<close>: the file of today is created when it does not exist, then
  loaded. The result is the path (the date), the loaded sheet and the files afterwards.\<close>

definition ensure_workbook :: "env \<Rightarrow> (date \<rightharpoonup> sheet) \<Rightarrow> exn + (date \<times> sheet \<times> (date \<rightharpoonup> sheet))" where
  "ensure_workbook e st =
    (case st (today e) of
       None \<Rightarrow>
         if disk_ok e then Inr (today e, new_workbook, st (today e \<mapsto> new_workbook))
         else Inl OSError
     | Some ws \<Rightarrow> Inr (today e, ws, st))"


text \<open>\<open>wb.save(fpath)\<close>.\<close>

definition wb_save :: "env \<Rightarrow> date \<Rightarrow> sheet \<Rightarrow> (date \<rightharpoonup> sheet) \<Rightarrow> exn + (date \<rightharpoonup> sheet)" where
  "wb_save e fpath ws st = (if disk_ok e then Inr (st (fpath \<mapsto> ws)) else Inl OSError)"

section \<open>Fetching a slot: \<open>_fetch\<close>\<close>

text \<open>From \<open>ensure_workbook()\<close> to \<open>self.updated.emit()\<close>, the same in both files: the
  result is the state reached, with the exception that ended the body if one did. What
  was saved before the exception stays saved.\<close>

definition merge_and_save :: "env \<Rightarrow> label \<Rightarrow> rat option list \<Rightarrow> state \<Rightarrow> state \<times> exn option" where
  "merge_and_save e lbl prices s =
    (case ensure_workbook e (store s) of
       Inl x \<Rightarrow> (s, Some x)
     | Inr (fpath, ws, st1) \<Rightarrow>
         (case index_of lbl (map snd HOURS) of
            None \<Rightarrow> (s \<lparr>store := st1\<rparr>, Some (ValueError lbl))
          | Some i \<Rightarrow>
              (case wb_save e fpath (merge_rows (i + 2) 2 prices ws) st1 of
                 Inl x \<Rightarrow> (s \<lparr>store := st1\<rparr>, Some x)
               | Inr st2 \<Rightarrow> (s \<lparr>store := st2, emitted := Suc (emitted s)\<rparr>, None))))"

text \<open>The body of the \<open>try\<close> in \<open>_fetch\<close> of \<^verbatim>\<open>DOW30_Excel_Dashboard.py\<close>.\<close>

definition fetch_try_orig :: "env \<Rightarrow> label \<Rightarrow> bool \<Rightarrow> datetime option \<Rightarrow> state \<Rightarrow> state \<times> exn option" where
  "fetch_try_orig e lbl use_history hist_dt s =
    (case collect (map (\<lambda>symb. snd (get_orig e use_history hist_dt symb)) TICKERS) of
       Inl x \<Rightarrow> (s, Some x)
     | Inr prices \<Rightarrow> merge_and_save e lbl prices s)"

text \<open>\<open>except Exception: traceback.print_exc()\<close>.\<close>

definition print_exc :: "state \<times> exn option \<Rightarrow> state" where
  "print_exc r = (case snd r of None \<Rightarrow> fst r | Some x \<Rightarrow> (fst r) \<lparr>log := log (fst r) @ [x]\<rparr>)"

definition fetch_orig :: "env \<Rightarrow> label \<Rightarrow> bool \<Rightarrow> datetime option \<Rightarrow> state \<Rightarrow> state" where
  "fetch_orig e lbl use_history hist_dt s = print_exc (fetch_try_orig e lbl use_history hist_dt s)"

text \<open>The reverse lookup \<open>next((h for h, lbl in HOURS.items() if lbl == label), None)\<close>.\<close>

definition hour_of_label :: "label \<Rightarrow> nat option" where
  "hour_of_label lbl = map_option fst (find (\<lambda>(h, l). l = lbl) HOURS)"

text \<open>Lines 183 to 190 of \<^verbatim>\<open>DOW30_Excel_Dashboard_fixed.py\<close>: a historical fetch without
  a \<open>hist_dt\<close> computes it from the label, and raises \<open>ValueError\<close> on a label that is not
  in \<open>HOURS\<close>.\<close>

definition hist_dt_fixed :: "env \<Rightarrow> label \<Rightarrow> bool \<Rightarrow> datetime option \<Rightarrow> exn + datetime option" where
  "hist_dt_fixed e lbl use_history hist_dt =
    (if use_history \<and> hist_dt = None
     then (case hour_of_label lbl of
             None \<Rightarrow> Inl (ValueError lbl)
           | Some h \<Rightarrow> Inr (Some (combine (today e) h)))
     else Inr hist_dt)"

text \<open>The body of the \<open>try\<close> in \<open>_fetch\<close> of \<^verbatim>\<open>DOW30_Excel_Dashboard_fixed.py\<close>.\<close>

definition fetch_try_fixed :: "env \<Rightarrow> label \<Rightarrow> bool \<Rightarrow> datetime option \<Rightarrow> state \<Rightarrow> state \<times> exn option" where
  "fetch_try_fixed e lbl use_history hist_dt s =
    (case hist_dt_fixed e lbl use_history hist_dt of
       Inl x \<Rightarrow> (s, Some x)
     | Inr hdt \<Rightarrow>
         (case collect (map (\<lambda>symb. snd (get_fixed e use_history hdt symb)) TICKERS) of
            Inl x \<Rightarrow> (s, Some x)
          | Inr prices \<Rightarrow> merge_and_save e lbl prices s))"

definition fetch_fixed :: "env \<Rightarrow> label \<Rightarrow> bool \<Rightarrow> datetime option \<Rightarrow> state \<Rightarrow> state" where
  "fetch_fixed e lbl use_history hist_dt s = print_exc (fetch_try_fixed e lbl use_history hist_dt s)"

section \<open>The scheduler: \<open>Fetcher.__init__\<close> and the polling loop\<close>

text \<open>The arguments of one call \<open>self._fetch(label, use_history, hist_dt)\<close>.\<close>

datatype fetch_call = FetchCall label bool "datetime option"

fun call_label :: "fetch_call \<Rightarrow> label" where
  "call_label (FetchCall lbl use_history hist_dt) = lbl"

text \<open>The functions handed to \<open>schedule\<close>:
  \<^item> \<open>EnsureJob\<close>: \<open>ensure_workbook\<close>;
  \<^item> \<open>HistJobOrig l d\<close>: \<open>lambda l=lbl, d=hist_dt: self._fetch(l, True, d)\<close>, the
    timestamp captured when the lambda is made;
  \<^item> \<open>HistJobFixed l h\<close>: \<open>lambda l=label, h=hour: self._fetch(l, use_history=True,
    hist_dt=datetime.combine(date.today(), dtime(hour=h)))\<close>, the timestamp computed when
    the job runs;
  \<^item> \<open>LiveJob l\<close>: \<open>lambda l=lbl: self._fetch(l)\<close>.\<close>

datatype job_func =
    EnsureJob
  | HistJobOrig label datetime
  | HistJobFixed label nat
  | LiveJob label

record job =
  at_hour :: nat
  next_run :: datetime
  func :: job_func

text \<open>\<open>now.time()\<close>, in microseconds since midnight.\<close>

definition time_of :: "datetime \<Rightarrow> int" where
  "time_of t = t mod usec_per_day"

text \<open>The library \<open>schedule\<close>, for a job \<open>every().day.at("HH:00")\<close>: the next run is today
  at HH:00 when that is still ahead of the clock, and tomorrow at HH:00 otherwise. The
  same rule applies when the job is registered and after each run.\<close>

definition schedule_next_run :: "datetime \<Rightarrow> nat \<Rightarrow> datetime" where
  "schedule_next_run now h =
    (if time_of now < int h * usec_per_hour then combine (date_of now) h
     else combine (date_of now + 1) h)"

definition every_day_at :: "datetime \<Rightarrow> nat \<Rightarrow> job_func \<Rightarrow> job" where
  "every_day_at now h f = \<lparr>at_hour = h, next_run = schedule_next_run now h, func = f\<rparr>"

text \<open>\<open>Fetcher.__init__\<close>, lines 73 to 87 of \<^verbatim>\<open>DOW30_Excel_Dashboard.py\<close>, with the
  clock read as \<open>now\<close>: the calls of \<open>_fetch\<close> made on the spot, in order, and the jobs
  registered, in order.\<close>

definition backfill_orig :: "datetime \<Rightarrow> fetch_call list" where
  "backfill_orig now =
    concat (map (\<lambda>(h, lbl).
      let hist_dt = combine (date_of now) h
      in if hist_dt \<le> now then [FetchCall lbl True (Some hist_dt)] else []) HOURS)"

definition jobs_orig :: "datetime \<Rightarrow> job list" where
  "jobs_orig now =
    every_day_at now 0 EnsureJob
    # map (\<lambda>(h, lbl). every_day_at now h (HistJobOrig lbl (combine (date_of now) h))) HOURS
    @ map (\<lambda>(h, lbl). every_day_at now h (LiveJob lbl)) HOURS"

text \<open>\<open>Fetcher.__init__\<close>, lines 119 to 152 of \<^verbatim>\<open>DOW30_Excel_Dashboard_fixed.py\<close>;
  \<open>date.today()\<close> is the date of the same reading \<open>now\<close> of the clock.\<close>

definition backfill_fixed :: "datetime \<Rightarrow> fetch_call list" where
  "backfill_fixed now =
    concat (map (\<lambda>(hour, lbl).
      let hist_dt_today = combine (date_of now) hour
      in if hist_dt_today \<le> now then [FetchCall lbl True (Some hist_dt_today)] else []) HOURS)"

definition jobs_fixed :: "datetime \<Rightarrow> job list" where
  "jobs_fixed now =
    every_day_at now 0 EnsureJob
    # map (\<lambda>(hour, lbl). every_day_at now hour (HistJobFixed lbl hour)) HOURS
    @ map (\<lambda>(hour, lbl). every_day_at now hour (LiveJob lbl)) HOURS"

text \<open>The call of \<open>_fetch\<close> a scheduled function makes when it runs in the world \<open>e\<close>
  (none for \<open>ensure_workbook\<close>).\<close>

fun job_call :: "env \<Rightarrow> job_func \<Rightarrow> fetch_call option" where
  "job_call e EnsureJob = None"
| "job_call e (HistJobOrig l d) = Some (FetchCall l True (Some d))"
| "job_call e (HistJobFixed l h) = Some (FetchCall l True (Some (combine (today e) h)))"
| "job_call e (LiveJob l) = Some (FetchCall l False None)"

fun do_fetch ::
  "(env \<Rightarrow> label \<Rightarrow> bool \<Rightarrow> datetime option \<Rightarrow> state \<Rightarrow> state) \<Rightarrow> env \<Rightarrow> fetch_call \<Rightarrow> state \<Rightarrow> state" where
  "do_fetch fetch e (FetchCall lbl use_history hist_dt) s = fetch e lbl use_history hist_dt s"

text \<open>Running one scheduled function; \<open>fetch\<close> is \<open>fetch_orig\<close> or \<open>fetch_fixed\<close>.
  \<open>ensure_workbook\<close> is scheduled bare, so what it raises leaves the job.\<close>

definition run_job ::
  "(env \<Rightarrow> label \<Rightarrow> bool \<Rightarrow> datetime option \<Rightarrow> state \<Rightarrow> state) \<Rightarrow> env \<Rightarrow> job_func \<Rightarrow> state \<Rightarrow> exn + state" where
  "run_job fetch e f s =
    (case job_call e f of
       None \<Rightarrow>
         (case ensure_workbook e (store s) of
            Inl x \<Rightarrow> Inl x
          | Inr (fpath, ws, st) \<Rightarrow> Inr (s \<lparr>store := st\<rparr>))
     | Some c \<Rightarrow> Inr (do_fetch fetch e c s))"

text \<open>\<open>schedule.run_pending()\<close> at the instant \<open>t\<close>: the jobs whose time has come run in
  the order of their \<open>next_run\<close> (\<open>sorted\<close> is stable, so jobs due at the same instant
  run in the order they were registered), and each is scheduled again. \<open>schedule\<close>
  catches nothing: an exception that leaves a job leaves \<open>run_pending\<close>.\<close>

definition should_run :: "datetime \<Rightarrow> job \<Rightarrow> bool" where
  "should_run t j = (next_run j \<le> t)"

definition due_jobs :: "datetime \<Rightarrow> job list \<Rightarrow> job list" where
  "due_jobs t jobs = sort_key next_run (filter (should_run t) jobs)"

fun run_jobs ::
  "(env \<Rightarrow> label \<Rightarrow> bool \<Rightarrow> datetime option \<Rightarrow> state \<Rightarrow> state) \<Rightarrow> env \<Rightarrow> job list \<Rightarrow> state \<Rightarrow> exn + state" where
  "run_jobs fetch e [] s = Inr s"
| "run_jobs fetch e (j # js) s =
    (case run_job fetch e (func j) s of
       Inl x \<Rightarrow> Inl x
     | Inr s' \<Rightarrow> run_jobs fetch e js s')"

definition reschedule :: "datetime \<Rightarrow> job \<Rightarrow> job" where
  "reschedule t j = (if should_run t j then j \<lparr>next_run := schedule_next_run t (at_hour j)\<rparr> else j)"

definition run_pending ::
  "(env \<Rightarrow> label \<Rightarrow> bool \<Rightarrow> datetime option \<Rightarrow> state \<Rightarrow> state) \<Rightarrow> env \<Rightarrow> datetime \<Rightarrow> job list \<Rightarrow> state
    \<Rightarrow> exn + (job list \<times> state)" where
  "run_pending fetch e t jobs s =
    (case run_jobs fetch e (due_jobs t jobs) s of
       Inl x \<Rightarrow> Inl x
     | Inr s' \<Rightarrow> Inr (map (reschedule t) jobs, s'))"

text \<open>The calls of \<open>_fetch\<close> one \<open>run_pending\<close> makes, in order.\<close>

definition due_calls :: "env \<Rightarrow> datetime \<Rightarrow> job list \<Rightarrow> fetch_call list" where
  "due_calls e t jobs = List.map_filter (\<lambda>j. job_call e (func j)) (due_jobs t jobs)"

text \<open>The loop \<open>while True: schedule.run_pending(); time.sleep(1)\<close> over the first polls
  of a run, each an instant with the world at that instant. The thread ends when an
  exception leaves \<open>run_pending\<close>.\<close>

fun run_loop ::
  "(env \<Rightarrow> label \<Rightarrow> bool \<Rightarrow> datetime option \<Rightarrow> state \<Rightarrow> state) \<Rightarrow> (env \<times> datetime) list \<Rightarrow> job list \<Rightarrow> state
    \<Rightarrow> exn + (job list \<times> state)" where
  "run_loop fetch [] jobs s = Inr (jobs, s)"
| "run_loop fetch ((e, t) # polls) jobs s =
    (case run_pending fetch e t jobs s of
       Inl x \<Rightarrow> Inl x
     | Inr (jobs', s') \<Rightarrow> run_loop fetch polls jobs' s')"

text \<open>The shape the job list keeps throughout a run: the midnight job with next run \<open>m\<close>,
  then the historical job and, further down, the live job of every slot, both with the
  next run \<open>n h\<close> of the slot's hour \<open>h\<close>; \<open>hist h lbl\<close> is the function of the historical
  job of the slot.\<close>

definition jobs_at :: "(nat \<Rightarrow> label \<Rightarrow> job_func) \<Rightarrow> datetime \<Rightarrow> (nat \<Rightarrow> datetime) \<Rightarrow> job list" where
  "jobs_at hist m n =
    \<lparr>at_hour = 0, next_run = m, func = EnsureJob\<rparr>
    # map (\<lambda>(h, lbl). \<lparr>at_hour = h, next_run = n h, func = hist h lbl\<rparr>) HOURS
    @ map (\<lambda>(h, lbl). \<lparr>at_hour = h, next_run = n h, func = LiveJob lbl\<rparr>) HOURS"

section \<open>Sheets the program produces\<close>

text \<open>The sheets a workbook can hold when it was created by \<open>ensure_workbook\<close> and
  changed by nothing but the merge loop of \<open>_fetch\<close>: the label is one \<open>index\<close> finds
  in \<open>HOURS\<close>, column and first row are the ones \<open>_fetch\<close> uses, and every price merged
  satisfies \<open>P\<close>.\<close>

inductive sheets_from :: "(rat \<Rightarrow> bool) \<Rightarrow> sheet \<Rightarrow> bool" for P :: "rat \<Rightarrow> bool" where
  created: "sheets_from P new_workbook"
| merged: "sheets_from P ws \<Longrightarrow> index_of lbl (map snd HOURS) = Some i
    \<Longrightarrow> list_all (\<lambda>p. case p of None \<Rightarrow> True | Some x \<Rightarrow> P x) prices
    \<Longrightarrow> sheets_from P (merge_rows (i + 2) 2 prices ws)"

section \<open>Worlds and states used as examples\<close>

text \<open>A world in which the window is empty and both quote sources answer without a price; a
  world in which every source answers with the price \<open>p\<close>; the state with one saved
  workbook; the state with none.\<close>

definition absent_world :: "date \<Rightarrow> env" where
  "absent_world d =
    \<lparr>today = d, history = (\<lambda>symb start stop. Inr []), info_price = (\<lambda>symb. Inr None),
     quote = (\<lambda>symb. Inr (Some [])), disk_ok = True\<rparr>"

definition priced_world :: "date \<Rightarrow> rat \<Rightarrow> env" where
  "priced_world d p =
    \<lparr>today = d, history = (\<lambda>symb start stop. Inr [(start, p)]), info_price = (\<lambda>symb. Inr (Some p)),
     quote = (\<lambda>symb. Inr (Some [Some p])), disk_ok = True\<rparr>"

text \<open>A world in which the first request for the symbol \<open>bad\<close> raises and every other
  symbol is answered with \<open>p\<close>; a world in which the symbol \<open>bad\<close> has an empty window and
  no price at the first source, and the quote endpoint answers it with \<open>q\<close>.\<close>

definition failing_world :: "date \<Rightarrow> symbol \<Rightarrow> rat \<Rightarrow> env" where
  "failing_world d bad p =
    \<lparr>today = d,
     history = (\<lambda>symb start stop. if symb = bad then Inl NetworkError else Inr [(start, p)]),
     info_price = (\<lambda>symb. if symb = bad then Inl NetworkError else Inr (Some p)),
     quote = (\<lambda>symb. Inr (Some [Some p])), disk_ok = True\<rparr>"

definition partial_world :: "date \<Rightarrow> symbol \<Rightarrow> rat \<Rightarrow> (exn + rat option list option) \<Rightarrow> env" where
  "partial_world d bad p q =
    \<lparr>today = d,
     history = (\<lambda>symb start stop. if symb = bad then Inr [] else Inr [(start, p)]),
     info_price = (\<lambda>symb. if symb = bad then Inr None else Inr (Some p)),
     quote = (\<lambda>symb. if symb = bad then q else Inr (Some [Some p])), disk_ok = True\<rparr>"

definition saved :: "date \<Rightarrow> sheet \<Rightarrow> state" where
  "saved d ws = \<lparr>store = [d \<mapsto> ws], log = [], emitted = 0\<rparr>"

definition nothing_saved :: state where
  "nothing_saved = \<lparr>store = Map.empty, log = [], emitted = 0\<rparr>"

section \<open>Properties of the merge loop and of the store\<close>


lemma ws_cell_other: "(r', c') \<noteq> (r, c) \<Longrightarrow> ws_cell ws r c v (r', c') = ws (r', c')"
  by (cases v) (auto simp: ws_cell_def)

lemma set_style_other: "(r', c') \<noteq> (r, c) \<Longrightarrow> set_style ws r c m (r', c') = ws (r', c')"
  by (auto simp: set_style_def)

lemma set_style_cval: "cval (set_style ws r c m p) = cval (ws p)"
  by (simp add: set_style_def)

lemma ws_cell_mark: "mark (ws_cell ws r c v p) = mark (ws p)"
  by (cases v) (simp_all add: ws_cell_def)

lemma ws_cell_cval:
  "cval (ws_cell ws r c v (r, c)) = (case v of None \<Rightarrow> cval (ws (r, c)) | Some x \<Rightarrow> Num x)"
  by (cases v) (simp_all add: ws_cell_def)

lemma set_style_mark: "mark (set_style ws r c m (r, c)) = m"
  by (simp add: set_style_def)

text \<open>The three shapes of the result of one pass.\<close>

lemma merge_row_cases:
  "merge_row col r price ws = ws_cell ws r col (map_option py_round2 price)
   \<or> merge_row col r price ws = set_style (ws_cell ws r col (map_option py_round2 price)) r col Up
   \<or> merge_row col r price ws = set_style (ws_cell ws r col (map_option py_round2 price)) r col Down"
  by (simp add: merge_row_def Let_def split: cellval.split option.split)

lemma merge_row_other:
  "(r', c') \<noteq> (r, col) \<Longrightarrow> merge_row col r price ws (r', c') = ws (r', c')"
  using merge_row_cases [of col r price ws]
  by (metis set_style_other ws_cell_other)

lemma merge_row_cval:
  "cval (merge_row col r price ws (r, col)) =
     (case price of None \<Rightarrow> cval (ws (r, col)) | Some x \<Rightarrow> Num (py_round2 x))"
proof -
  have "cval (merge_row col r price ws (r, col))
        = cval (ws_cell ws r col (map_option py_round2 price) (r, col))"
    using merge_row_cases [of col r price ws] by (metis set_style_cval)
  then show ?thesis by (cases price) (simp_all add: ws_cell_cval)
qed


lemma merge_row_mark:
  assumes "1 \<le> col"
  shows "mark (merge_row col r price ws (r, col)) =
     (case (cval (ws (r, col - 1)), price) of
        (Num pv, Some x) \<Rightarrow>
          if pv < py_round2 x then Up else if py_round2 x < pv then Down else mark (ws (r, col))
      | _ \<Rightarrow> mark (ws (r, col)))"
proof -
  let ?ws1 = "ws_cell ws r col (map_option py_round2 price)"
  have left: "(r, col - 1) \<noteq> (r, col)" using assms by simp
  have prev: "cval (?ws1 (r, col - 1)) = cval (ws (r, col - 1))"
    using ws_cell_other [OF left] by simp
  show ?thesis
  proof (cases price)
    case None
    then show ?thesis
      by (simp add: merge_row_def Let_def prev ws_cell_mark split: cellval.split)
  next
    case (Some x)
    show ?thesis
    proof (cases "cval (ws (r, col - 1))")
      case (Num pv)
      then show ?thesis using Some prev
        by (simp add: merge_row_def Let_def set_style_mark ws_cell_mark)
    qed (use Some prev in \<open>simp_all add: merge_row_def Let_def ws_cell_mark\<close>)
  qed
qed

lemma merge_rows_other:
  "c' \<noteq> col \<or> r' < r \<or> r + length prices \<le> r' \<Longrightarrow> merge_rows col r prices ws (r', c') = ws (r', c')"
proof (induction prices arbitrary: r ws)
  case Nil
  then show ?case by simp
next
  case (Cons p ps)
  have "merge_rows col (Suc r) ps (merge_row col r p ws) (r', c') = merge_row col r p ws (r', c')"
    using Cons.prems by (intro Cons.IH) auto
  moreover have "merge_row col r p ws (r', c') = ws (r', c')"
    using Cons.prems by (intro merge_row_other) auto
  ultimately show ?case by simp
qed

text \<open>One pass reads only the cell it writes and the cell to its left.\<close>

lemma style_local:
  assumes "A (r, col) = B (r, col)" and "cval (A (r, col - 1)) = cval (B (r, col - 1))"
  shows "(case (cval (A (r, col - 1)), v) of
            (Num pv, Some x) \<Rightarrow>
              if pv < x then set_style A r col Up
              else if x < pv then set_style A r col Down
              else A
          | _ \<Rightarrow> A) (r, col)
         = (case (cval (B (r, col - 1)), v) of
            (Num pv, Some x) \<Rightarrow>
              if pv < x then set_style B r col Up
              else if x < pv then set_style B r col Down
              else B
          | _ \<Rightarrow> B) (r, col)"
  using assms by (cases "cval (B (r, col - 1))"; cases v; simp add: set_style_def)

lemma merge_row_local:
  assumes "ws (r, col) = ws' (r, col)" and "ws (r, col - 1) = ws' (r, col - 1)"
  shows "merge_row col r price ws (r, col) = merge_row col r price ws' (r, col)"
proof -
  let ?v = "map_option py_round2 price"
  have a: "ws_cell ws r col ?v (r, col) = ws_cell ws' r col ?v (r, col)"
    using assms(1) by (cases price) (simp_all add: ws_cell_def)
  have b: "cval (ws_cell ws r col ?v (r, col - 1)) = cval (ws_cell ws' r col ?v (r, col - 1))"
    using assms by (cases price) (simp_all add: ws_cell_def)
  show ?thesis
    unfolding merge_row_def Let_def by (rule style_local [OF a b])
qed

lemma merge_rows_at:
  "i < length prices \<Longrightarrow>
   merge_rows col r prices ws (r + i, col) = merge_row col (r + i) (prices ! i) ws (r + i, col)"
proof (induction prices arbitrary: r ws i)
  case Nil
  then show ?case by simp
next
  case (Cons p ps)
  show ?case
  proof (cases i)
    case 0
    have "merge_rows col (Suc r) ps (merge_row col r p ws) (r, col) = merge_row col r p ws (r, col)"
      by (intro merge_rows_other) simp
    with 0 show ?thesis by simp
  next
    case (Suc k)
    with Cons.prems have k: "k < length ps" by simp
    let ?ws1 = "merge_row col r p ws"
    have "merge_rows col (Suc r) ps ?ws1 (Suc r + k, col)
          = merge_row col (Suc r + k) (ps ! k) ?ws1 (Suc r + k, col)"
      using k by (rule Cons.IH)
    also have "\<dots> = merge_row col (Suc r + k) (ps ! k) ws (Suc r + k, col)"
      by (intro merge_row_local merge_row_other) simp_all
    finally show ?thesis using Suc by simp
  qed
qed


lemma merge_rows_cval:
  "cval (merge_rows col r prices ws (r', c')) =
     (if c' = col \<and> r \<le> r' \<and> r' < r + length prices
      then (case prices ! (r' - r) of None \<Rightarrow> cval (ws (r', c')) | Some x \<Rightarrow> Num (py_round2 x))
      else cval (ws (r', c')))"
proof (cases "c' = col \<and> r \<le> r' \<and> r' < r + length prices")
  case True
  then obtain i where i: "r' = r + i" "i < length prices"
    by (metis le_Suc_ex nat_add_left_cancel_less)
  have "merge_rows col r prices ws (r + i, col) = merge_row col (r + i) (prices ! i) ws (r + i, col)"
    using i(2) by (rule merge_rows_at)
  then have "cval (merge_rows col r prices ws (r + i, col)) =
      (case prices ! i of None \<Rightarrow> cval (ws (r + i, col)) | Some x \<Rightarrow> Num (py_round2 x))"
    by (simp add: merge_row_cval)
  moreover have "c' = col" and "r' - r = i" using True i by simp_all
  ultimately show ?thesis using True i(1) by (simp split: option.split)
next
  case False
  then have "merge_rows col r prices ws (r', c') = ws (r', c')"
    by (intro merge_rows_other) auto
  with False show ?thesis by auto
qed

lemma merge_rows_keeps_nonblank:
  "cval (ws p) \<noteq> Blank \<Longrightarrow> cval (merge_rows col r prices ws p) \<noteq> Blank"
  by (cases p) (auto simp: merge_rows_cval split: option.split)

lemma merge_rows_mark:
  assumes "i < length prices" and "1 \<le> col"
  shows "mark (merge_rows col r prices ws (r + i, col)) =
     (case (cval (ws (r + i, col - 1)), prices ! i) of
        (Num pv, Some x) \<Rightarrow>
          if pv < py_round2 x then Up else if py_round2 x < pv then Down
          else mark (ws (r + i, col))
      | _ \<Rightarrow> mark (ws (r + i, col)))"
  using merge_rows_at [OF assms(1), of col r ws] merge_row_mark [OF assms(2), of "r + i" "prices ! i" ws]
  by simp

lemma print_exc_store: "store (print_exc r) = store (fst r)"
  by (simp add: print_exc_def split: option.split)



lemma fetch_try_orig_state:
  "fst (fetch_try_orig e lbl u d s) = s
   \<or> (\<exists>prices. fst (fetch_try_orig e lbl u d s) = fst (merge_and_save e lbl prices s))"
  by (auto simp: fetch_try_orig_def split: sum.split)

lemma fetch_try_fixed_state:
  "fst (fetch_try_fixed e lbl u d s) = s
   \<or> (\<exists>prices. fst (fetch_try_fixed e lbl u d s) = fst (merge_and_save e lbl prices s))"
  by (auto simp: fetch_try_fixed_def split: sum.split option.split)




subsection \<open>The workbook as created\<close>

lemma new_workbook_slot:
  "2 \<le> r \<Longrightarrow> 2 \<le> c \<Longrightarrow> new_workbook (r, c) = blank_cell"
  by (auto simp: new_workbook_def sheet_of_rows_def ticker_row_def blank_cell_def nth_Cons split: nat.split)

lemma new_workbook_mark: "mark (new_workbook p) = Neutral"
  by (cases p) (simp add: new_workbook_def sheet_of_rows_def blank_cell_def)

lemma new_workbook_col1: "cval (new_workbook (r, 1)) \<noteq> Num x"
  by (auto simp: new_workbook_def sheet_of_rows_def blank_cell_def header_row_def ticker_row_def nth_Cons split: nat.split)

section \<open>The first slot column\<close>

lemma merge_rows_mark_no_number:
  assumes "\<And>x. cval (ws (r', col - 1)) \<noteq> Num x" and "1 \<le> col"
  shows "mark (merge_rows col r prices ws (r', col)) = mark (ws (r', col))"
proof (cases "r \<le> r' \<and> r' < r + length prices")
  case True
  then obtain i where i: "r' = r + i" "i < length prices"
    by (metis le_Suc_ex nat_add_left_cancel_less)
  show ?thesis
    using merge_rows_mark [OF i(2) assms(2), of r ws] assms(1) i(1)
    by (cases "cval (ws (r', col - 1))") simp_all
next
  case False
  then have "merge_rows col r prices ws (r', col) = ws (r', col)"
    by (intro merge_rows_other) auto
  then show ?thesis by simp
qed

text \<open>The ticker column never holds a number and the first slot column never a marker.\<close>

lemma sheets_from_first_columns:
  "sheets_from P ws \<Longrightarrow> (\<forall>r x. cval (ws (r, 1)) \<noteq> Num x) \<and> (\<forall>r. mark (ws (r, 2)) = Neutral)"
proof (induction rule: sheets_from.induct)
  case created
  show ?case using new_workbook_col1 by (simp add: new_workbook_mark)
next
  case (merged ws lbl i prices)
  have col1: "merge_rows (i + 2) 2 prices ws (r, 1) = ws (r, 1)" for r
    by (intro merge_rows_other) simp
  have "mark (merge_rows (i + 2) 2 prices ws (r, 2)) = Neutral" for r
  proof (cases i)
    case 0
    have "mark (merge_rows 2 2 prices ws (r, 2)) = mark (ws (r, 2))"
      using merged.IH by (intro merge_rows_mark_no_number) simp_all
    then show ?thesis using 0 merged.IH by (simp del: add_2_eq_Suc' add_2_eq_Suc)
  next
    case (Suc j)
    then have "merge_rows (i + 2) 2 prices ws (r, 2) = ws (r, 2)"
      by (intro merge_rows_other) simp
    then show ?thesis using merged.IH by simp
  qed
  then show ?case using col1 merged.IH by simp
qed

lemma index_of_first_label: "index_of ''9:31 AM'' (map snd HOURS) = Some 0"
  by (simp add: HOURS_def)

text \<open>
  Claim C10: on every sheet the program produces from the workbook it creates (whatever
  the prices merged so far), no cell of the first slot column, column 2, carries an up
  or down marker, and a merge of any prices into that column leaves every cell of it
  unmarked: the cell to the left is the ticker cell, which never holds a number.
\<close>

theorem first_slot_never_marked:
  assumes "sheets_from (\<lambda>x. True) ws"
  shows "mark (ws (r, 2)) = Neutral \<and> mark (merge_rows 2 2 prices ws (r, 2)) = Neutral"
proof -
  have "list_all (\<lambda>p. case p of None \<Rightarrow> True | Some x \<Rightarrow> True) prices"
    by (simp add: list_all_iff split: option.split)
  from sheets_from.merged [OF assms index_of_first_label this]
  have "sheets_from (\<lambda>x. True) (merge_rows 2 2 prices ws)" by (simp only: add_0)
  then show ?thesis using assms sheets_from_first_columns by blast
qed

text \<open>A first merge of 100 and an absent sample, then a second of 105 and 7 into the same
  first slot: the cell of AAPL is unmarked after each.\<close>

theorem first_slot_never_marked_witness:
  "mark (merge_rows 2 2 [Some 100, None] new_workbook (2, 2)) = Neutral
   \<and> mark (merge_rows 2 2 [Some 105, Some 7] (merge_rows 2 2 [Some 100, None] new_workbook) (2, 2)) = Neutral"
proof -
  have "list_all (\<lambda>p. case p of None \<Rightarrow> True | Some x \<Rightarrow> True) [Some (100::rat), None]"
    by simp
  from sheets_from.merged [OF sheets_from.created index_of_first_label this]
  have "sheets_from (\<lambda>x. True) (merge_rows 2 2 [Some 100, None] new_workbook)" by (simp only: add_0)
  from first_slot_never_marked [OF this, of 2 "[Some 105, Some 7]"] show ?thesis .
qed

section \<open>Collecting the lookups and saving\<close>

lemma collect_Inr: "collect rs = Inr vs \<Longrightarrow> rs = map Inr vs"
proof (induction rs arbitrary: vs)
  case Nil
  then show ?case by simp
next
  case (Cons r rs)
  then show ?case by (cases r) (auto split: sum.splits)
qed

lemma collect_map_Inr: "collect (map Inr vs) = Inr vs"
  by (induction vs) simp_all

lemma collect_Inl: "collect rs = Inl x \<Longrightarrow> Inl x \<in> set rs"
proof (induction rs)
  case Nil
  then show ?case by simp
next
  case (Cons r rs)
  then show ?case by (cases r) (auto split: sum.splits)
qed

lemma collect_map_nth:
  assumes "collect (map f xs) = Inr vs"
  shows "length vs = length xs" and "i < length xs \<Longrightarrow> f (xs ! i) = Inr (vs ! i)"
proof -
  have m: "map f xs = map Inr vs" using assms by (rule collect_Inr)
  then show l: "length vs = length xs" by (metis length_map)
  assume "i < length xs"
  then show "f (xs ! i) = Inr (vs ! i)" using m l by (metis nth_map)
qed

lemma collect_total:
  assumes "\<And>x. x \<in> set xs \<Longrightarrow> \<exists>v. f x = Inr v"
  shows "\<exists>vs. collect (map f xs) = Inr vs"
  using assms
proof (induction xs)
  case Nil
  then show ?case by simp
next
  case (Cons a xs)
  then obtain v vs where "f a = Inr v" "collect (map f xs) = Inr vs"
    by (metis list.set_intros(1,2))
  then show ?case by simp
qed

lemma merge_rows_cval_change:
  "cval (merge_rows col r0 prices ws (r, c)) = cval (ws (r, c))
   \<or> (c = col \<and> r0 \<le> r \<and> r - r0 < length prices
       \<and> (\<exists>x. prices ! (r - r0) = Some x
             \<and> cval (merge_rows col r0 prices ws (r, c)) = Num (py_round2 x)))"
proof (cases "c = col \<and> r0 \<le> r \<and> r < r0 + length prices")
  case True
  then have l: "r - r0 < length prices" by auto
  show ?thesis
  proof (cases "prices ! (r - r0)")
    case None
    then show ?thesis using True by (simp add: merge_rows_cval)
  next
    case (Some x)
    then show ?thesis using True l by (simp add: merge_rows_cval)
  qed
next
  case False
  then have "merge_rows col r0 prices ws (r, c) = ws (r, c)"
    by (intro merge_rows_other) auto
  then show ?thesis by simp
qed





lemma merge_and_save_ok:
  assumes "index_of lbl (map snd HOURS) = Some k" and "disk_ok e"
  shows "merge_and_save e lbl prices s =
    (s \<lparr>store := (store s) (today e \<mapsto>
            merge_rows (k + 2) 2 prices (case store s (today e) of None \<Rightarrow> new_workbook | Some ws \<Rightarrow> ws)),
        emitted := Suc (emitted s)\<rparr>, None)"
  using assms
  by (cases "store s (today e)") (simp_all add: merge_and_save_def ensure_workbook_def wb_save_def)



lemma py_round2_2dp: "is_2dp (py_round2 x)"
  by (simp add: is_2dp_def py_round2_def Let_def)

lemma py_round2_nonneg:
  assumes "0 \<le> x"
  shows "0 \<le> py_round2 x"
proof -
  have "0 \<le> \<lfloor>x * 100\<rfloor>" using assms by simp
  then show ?thesis by (simp add: py_round2_def Let_def)
qed

lemma sheets_from_slot:
  assumes "sheets_from P ws" and "2 \<le> r" and "2 \<le> c"
  shows "cval (ws (r, c)) = Blank \<or> (\<exists>p. P p \<and> cval (ws (r, c)) = Num (py_round2 p))"
  using assms
proof (induction rule: sheets_from.induct)
  case created
  then show ?case by (simp add: new_workbook_slot blank_cell_def)
next
  case (merged ws lbl i prices)
  from merge_rows_cval_change [of "i + 2" 2 prices ws r c]
  show ?case
  proof
    assume "cval (merge_rows (i + 2) 2 prices ws (r, c)) = cval (ws (r, c))"
    then show ?thesis using merged by simp
  next
    assume "c = i + 2 \<and> 2 \<le> r \<and> r - 2 < length prices
       \<and> (\<exists>x. prices ! (r - 2) = Some x
             \<and> cval (merge_rows (i + 2) 2 prices ws (r, c)) = Num (py_round2 x))"
    then obtain x where x: "r - 2 < length prices" "prices ! (r - 2) = Some x"
      "cval (merge_rows (i + 2) 2 prices ws (r, c)) = Num (py_round2 x)" by blast
    have "Some x \<in> set prices" using x(1,2) by (metis nth_mem)
    then have "P x" using merged.hyps(3) by (auto simp: list_all_iff)
    then show ?thesis using x(3) by blast
  qed
qed

lemma collect_const:
  assumes "\<And>x. x \<in> set xs \<Longrightarrow> f x = Inr v"
  shows "collect (map f xs) = Inr (map (\<lambda>x. v) xs)"
  using assms by (induction xs) simp_all

lemma fetch_orig_ok:
  assumes "collect (map (\<lambda>symb. snd (get_orig e u dt symb)) TICKERS) = Inr prices"
    and "index_of lbl (map snd HOURS) = Some k" and "disk_ok e"
  shows "fetch_orig e lbl u dt s =
    s \<lparr>store := (store s) (today e \<mapsto>
            merge_rows (k + 2) 2 prices (case store s (today e) of None \<Rightarrow> new_workbook | Some ws \<Rightarrow> ws)),
       emitted := Suc (emitted s)\<rparr>"
  using assms(1) merge_and_save_ok [OF assms(2,3), of prices s]
  by (simp add: fetch_orig_def fetch_try_orig_def print_exc_def)

lemma fetch_fixed_ok:
  assumes "hist_dt_fixed e lbl u dt = Inr hdt"
    and "collect (map (\<lambda>symb. snd (get_fixed e u hdt symb)) TICKERS) = Inr prices"
    and "index_of lbl (map snd HOURS) = Some k" and "disk_ok e"
  shows "fetch_fixed e lbl u dt s =
    s \<lparr>store := (store s) (today e \<mapsto>
            merge_rows (k + 2) 2 prices (case store s (today e) of None \<Rightarrow> new_workbook | Some ws \<Rightarrow> ws)),
       emitted := Suc (emitted s)\<rparr>"
  using assms(1,2) merge_and_save_ok [OF assms(3,4), of prices s]
  by (simp add: fetch_fixed_def fetch_try_fixed_def print_exc_def)

lemma index_of_second_label: "index_of ''10:00 AM'' (map snd HOURS) = Some 1"
  by (simp add: HOURS_def)

lemma length_TICKERS: "length TICKERS = 30"
  by (simp add: TICKERS_def)

lemma TICKERS_0: "TICKERS ! 0 = ''AAPL''"
  by (simp add: TICKERS_def)

section \<open>The up/down marker\<close>

lemma live_prices_orig:
  "p \<noteq> 0 \<Longrightarrow> collect (map (\<lambda>symb. snd (get_orig (priced_world d p) False None symb)) TICKERS)
     = Inr (map (\<lambda>x. Some p) TICKERS)"
  by (intro collect_const) (simp add: get_orig_def live_orig_def priced_world_def truthy_price_def)

lemma live_prices_fixed:
  "collect (map (\<lambda>symb. snd (get_fixed (priced_world d p) False None symb)) TICKERS)
     = Inr (map (\<lambda>x. Some p) TICKERS)"
  by (intro collect_const) (simp add: get_fixed_def live_fixed_def priced_world_def)

lemma live_fetch_orig:
  assumes "p \<noteq> 0" and "index_of lbl (map snd HOURS) = Some k"
  shows "store (fetch_orig (priced_world d p) lbl False None s) d
         = Some (merge_rows (k + 2) 2 (map (\<lambda>x. Some p) TICKERS)
                  (case store s d of None \<Rightarrow> new_workbook | Some ws \<Rightarrow> ws))"
proof -
  have d: "disk_ok (priced_world d p)" "today (priced_world d p) = d"
    by (simp_all add: priced_world_def)
  show ?thesis
    by (simp add: fetch_orig_ok [OF live_prices_orig [OF assms(1)] assms(2) d(1)] d(2))
qed

lemma live_fetch_fixed:
  assumes "index_of lbl (map snd HOURS) = Some k"
  shows "store (fetch_fixed (priced_world d p) lbl False None s) d
         = Some (merge_rows (k + 2) 2 (map (\<lambda>x. Some p) TICKERS)
                  (case store s d of None \<Rightarrow> new_workbook | Some ws \<Rightarrow> ws))"
proof -
  have d: "disk_ok (priced_world d p)" "today (priced_world d p) = d"
    by (simp_all add: priced_world_def)
  have h: "hist_dt_fixed (priced_world d p) lbl False None = Inr None"
    by (simp add: hist_dt_fixed_def)
  show ?thesis
    by (simp add: fetch_fixed_ok [OF h live_prices_fixed assms d(1)] d(2))
qed

text \<open>The cell of AAPL in the slot 10:00 AM after merges of 100 into 9:31 AM, then 101 and
  then 100 into 10:00 AM, for every ticker.\<close>

lemma mark_first_row:
  assumes "prices \<noteq> []" and "1 \<le> col"
  shows "mark (merge_rows col 2 prices ws (2, col)) =
     (case (cval (ws (2, col - 1)), prices ! 0) of
        (Num pv, Some x) \<Rightarrow>
          if pv < py_round2 x then Up else if py_round2 x < pv then Down
          else mark (ws (2, col))
      | _ \<Rightarrow> mark (ws (2, col)))"
proof -
  have "0 < length prices" using assms(1) by simp
  from merge_rows_mark [OF this assms(2), of 2 ws] show ?thesis by (simp only: add_0_right)
qed

lemma cval_first_row:
  assumes "prices \<noteq> []"
  shows "cval (merge_rows col 2 prices ws (2, col)) =
     (case prices ! 0 of None \<Rightarrow> cval (ws (2, col)) | Some x \<Rightarrow> Num (py_round2 x))"
  using assms by (simp add: merge_rows_cval)

lemma refetched_cell:
  "cval (merge_rows 3 2 (map (\<lambda>x. Some 100) TICKERS)
      (merge_rows 3 2 (map (\<lambda>x. Some 101) TICKERS)
        (merge_rows 2 2 (map (\<lambda>x. Some 100) TICKERS) new_workbook)) (2, 2)) = Num 100
   \<and> cval (merge_rows 3 2 (map (\<lambda>x. Some 100) TICKERS)
      (merge_rows 3 2 (map (\<lambda>x. Some 101) TICKERS)
        (merge_rows 2 2 (map (\<lambda>x. Some 100) TICKERS) new_workbook)) (2, 3)) = Num 100
   \<and> mark (merge_rows 3 2 (map (\<lambda>x. Some 100) TICKERS)
      (merge_rows 3 2 (map (\<lambda>x. Some 101) TICKERS)
        (merge_rows 2 2 (map (\<lambda>x. Some 100) TICKERS) new_workbook)) (2, 3)) = Up"
proof -
  let ?P = "\<lambda>v::rat. map (\<lambda>x::symbol. Some v) TICKERS"
  let ?w1 = "merge_rows 2 2 (?P 100) new_workbook"
  let ?w2 = "merge_rows 3 2 (?P 101) ?w1"
  let ?w3 = "merge_rows 3 2 (?P 100) ?w2"
  have r: "py_round2 100 = 100" "py_round2 101 = 101" by code_simp+
  have n: "?P v \<noteq> []" for v by (simp add: TICKERS_def)
  have z: "?P v ! 0 = Some v" for v by (simp add: TICKERS_def)
  have a1: "cval (?w1 (2, 2)) = Num 100"
    by (simp only: cval_first_row [OF n] z option.case r)
  have a2: "?w2 (2, 2) = ?w1 (2, 2)" by (intro merge_rows_other) simp
  have a3: "?w3 (2, 2) = ?w2 (2, 2)" by (intro merge_rows_other) simp
  have left2: "cval (?w2 (2, 2)) = Num 100" using a1 a2 by simp
  have b2: "mark (?w2 (2, 3)) = Up"
    by (simp add: mark_first_row [OF n] z r a1 del: merge_rows.simps)
  have b3: "mark (?w3 (2, 3)) = Up"
    by (simp add: mark_first_row [OF n] z r left2 b2 del: merge_rows.simps)
  have c3: "cval (?w3 (2, 3)) = Num 100"
    by (simp only: cval_first_row [OF n] z option.case r)
  show ?thesis using a1 a2 a3 b3 c3 by simp
qed

text \<open>
  Claim C6, as stated, fails: the marker of a slot cell after a merge is not a function of
  the value written and the value to its left alone. The loop sets a style when the two
  numbers differ and never clears one. Below, 9:31 AM is fetched at 100, then 10:00 AM at
  101, which tags the cell of AAPL up, then 10:00 AM again at 100 (as the live job does
  after the historical job of the same hour): the cell equals its left neighbour and is
  still tagged up, in both files.
\<close>

theorem marker_not_reset_counterexample:
  "(case store (fetch_orig (priced_world 7 100) ''10:00 AM'' False None
        (fetch_orig (priced_world 7 101) ''10:00 AM'' False None
          (fetch_orig (priced_world 7 100) ''9:31 AM'' False None nothing_saved))) 7 of
      None \<Rightarrow> False
    | Some ws \<Rightarrow> cval (ws (2, 2)) = Num 100 \<and> cval (ws (2, 3)) = Num 100 \<and> mark (ws (2, 3)) = Up)
   \<and> (case store (fetch_fixed (priced_world 7 100) ''10:00 AM'' False None
        (fetch_fixed (priced_world 7 101) ''10:00 AM'' False None
          (fetch_fixed (priced_world 7 100) ''9:31 AM'' False None nothing_saved))) 7 of
      None \<Rightarrow> False
    | Some ws \<Rightarrow> cval (ws (2, 2)) = Num 100 \<and> cval (ws (2, 3)) = Num 100 \<and> mark (ws (2, 3)) = Up)"
proof -
  have e: "store nothing_saved 7 = None" by (simp add: nothing_saved_def)
  have nz: "(100::rat) \<noteq> 0" "(101::rat) \<noteq> 0" by simp_all
  have k: "(0::nat) + 2 = 2" "(1::nat) + 2 = 3" by simp_all
  note o = live_fetch_orig [OF nz(1) index_of_first_label] live_fetch_orig [OF nz(2) index_of_second_label]
    live_fetch_orig [OF nz(1) index_of_second_label]
  note f = live_fetch_fixed [OF index_of_first_label] live_fetch_fixed [OF index_of_second_label]
  show ?thesis
    by (simp only: o f e k option.case refetched_cell simp_thms)
qed

text \<open>
  Claim C6, amended: for the symbol in row \<open>i + 2\<close> and a merge of \<open>prices\<close> into the slot
  column \<open>k + 2\<close>, the cell is marked up exactly when the value to its left and the new
  value are both present and the new value, rounded, is strictly greater, marked down
  exactly when both are present and it is strictly less, and otherwise (the two are
  equal, or either is absent) it keeps the marker it had before the merge; a cell that
  was never marked is therefore left unmarked.
\<close>

theorem marker_set_by_merge:
  assumes "i < length prices"
  shows "mark (merge_rows (k + 2) 2 prices ws (i + 2, k + 2)) =
     (case (cval (ws (i + 2, k + 1)), prices ! i) of
        (Num pv, Some x) \<Rightarrow>
          if pv < py_round2 x then Up else if py_round2 x < pv then Down
          else mark (ws (i + 2, k + 2))
      | _ \<Rightarrow> mark (ws (i + 2, k + 2)))"
proof -
  have e: "2 + i = i + 2" "k + 2 - 1 = k + 1" by simp_all
  have "1 \<le> k + 2" by simp
  from merge_rows_mark [OF assms this, of 2 ws] show ?thesis unfolding e .
qed

text \<open>The four cases on a sheet whose first slot holds 100 for AAPL and 50 for AMGN:
  101 is marked up, 99 down, 100 and an absent sample are left unmarked.\<close>

theorem marker_set_by_merge_witness:
  "mark (merge_rows (1 + 2) 2 [Some 101, None] (merge_rows 2 2 [Some 100, Some 50] new_workbook) (0 + 2, 1 + 2)) = Up
   \<and> mark (merge_rows (1 + 2) 2 [Some 99, None] (merge_rows 2 2 [Some 100, Some 50] new_workbook) (0 + 2, 1 + 2)) = Down
   \<and> mark (merge_rows (1 + 2) 2 [Some 100, None] (merge_rows 2 2 [Some 100, Some 50] new_workbook) (0 + 2, 1 + 2)) = Neutral
   \<and> mark (merge_rows (1 + 2) 2 [Some 100, None] (merge_rows 2 2 [Some 100, Some 50] new_workbook) (1 + 2, 1 + 2)) = Neutral"
  by (intro conjI; subst marker_set_by_merge; code_simp)

section \<open>A written cell is never blanked\<close>



section \<open>What a slot cell can hold\<close>

text \<open>
  Claim C8, as stated, fails: nothing in \<open>_get\<close> or in the merge loop looks at the sign of
  a price. In a world where every source answers \<open>-1\<close>, a live fetch of the slot 10:00 AM
  writes \<open>-1\<close> into the cell of AAPL, in both files.
\<close>

theorem negative_price_counterexample:
  "(case store (fetch_orig (priced_world 7 (- 1)) ''10:00 AM'' False None nothing_saved) 7 of
      None \<Rightarrow> False
    | Some ws \<Rightarrow> cval (ws (2, 3)) = Num (- 1))
   \<and> (case store (fetch_fixed (priced_world 7 (- 1)) ''10:00 AM'' False None nothing_saved) 7 of
      None \<Rightarrow> False
    | Some ws \<Rightarrow> cval (ws (2, 3)) = Num (- 1))"
proof -
  let ?e = "priced_world 7 (- 1)"
  let ?prices = "map (\<lambda>x. Some (- 1 :: rat)) TICKERS"
  have r: "py_round2 (- 1) = - 1" by code_simp
  have c: "cval (merge_rows (1 + 2) 2 ?prices new_workbook (2, 3)) = Num (- 1)"
    by (simp add: merge_rows_cval length_TICKERS r)
  have d: "disk_ok ?e" "today ?e = 7" by (simp_all add: priced_world_def)
  have "collect (map (\<lambda>symb. snd (get_orig ?e False None symb)) TICKERS) = Inr ?prices"
    by (intro collect_const) (simp add: get_orig_def live_orig_def priced_world_def truthy_price_def)
  from fetch_orig_ok [OF this index_of_second_label d(1), of nothing_saved]
  have o: "store (fetch_orig ?e ''10:00 AM'' False None nothing_saved) 7
           = Some (merge_rows (1 + 2) 2 ?prices new_workbook)"
    by (simp add: d(2) nothing_saved_def)
  have h: "hist_dt_fixed ?e ''10:00 AM'' False None = Inr None"
    by (simp add: hist_dt_fixed_def)
  have "collect (map (\<lambda>symb. snd (get_fixed ?e False None symb)) TICKERS) = Inr ?prices"
    by (intro collect_const) (simp add: get_fixed_def live_fixed_def priced_world_def)
  from fetch_fixed_ok [OF h this index_of_second_label d(1), of nothing_saved]
  have f: "store (fetch_fixed ?e ''10:00 AM'' False None nothing_saved) 7
           = Some (merge_rows (1 + 2) 2 ?prices new_workbook)"
    by (simp add: d(2) nothing_saved_def)
  show ?thesis by (simp only: o f option.case c simp_thms)
qed

text \<open>
  Claim C8, amended: on every sheet the program produces from the workbook it creates,
  from prices that all satisfy \<open>P\<close>, a slot cell (row and column at least 2) is either
  absent or a number with two decimal places, namely the rounding of a merged price; it
  is non-negative when every merged price is. An absent sample is never written as
  zero: the merge leaves the cell of that row exactly as it was.
\<close>

theorem slot_cells_rounded:
  assumes "sheets_from P ws" and "2 \<le> r" and "2 \<le> c"
  shows "(case cval (ws (r, c)) of
            Blank \<Rightarrow> True
          | Num x \<Rightarrow> is_2dp x \<and> (\<exists>p. P p \<and> x = py_round2 p) \<and> ((\<forall>p. P p \<longrightarrow> 0 \<le> p) \<longrightarrow> 0 \<le> x)
          | Txt t \<Rightarrow> False)
       \<and> (\<forall>k prices i. i < length prices \<longrightarrow> prices ! i = None \<longrightarrow>
             merge_rows (k + 2) 2 prices ws (i + 2, k + 2) = ws (i + 2, k + 2))"
proof
  from sheets_from_slot [OF assms]
  show "case cval (ws (r, c)) of
            Blank \<Rightarrow> True
          | Num x \<Rightarrow> is_2dp x \<and> (\<exists>p. P p \<and> x = py_round2 p) \<and> ((\<forall>p. P p \<longrightarrow> 0 \<le> p) \<longrightarrow> 0 \<le> x)
          | Txt t \<Rightarrow> False"
  proof
    assume "cval (ws (r, c)) = Blank"
    then show ?thesis by simp
  next
    assume "\<exists>p. P p \<and> cval (ws (r, c)) = Num (py_round2 p)"
    then obtain p where "P p" "cval (ws (r, c)) = Num (py_round2 p)" by blast
    then show ?thesis using py_round2_2dp py_round2_nonneg by auto
  qed
  show "\<forall>k prices i. i < length prices \<longrightarrow> prices ! i = None \<longrightarrow>
             merge_rows (k + 2) 2 prices ws (i + 2, k + 2) = ws (i + 2, k + 2)"
  proof (intro allI impI)
    fix k :: nat and prices :: "rat option list" and i :: nat
    assume i: "i < length prices" and n: "prices ! i = None"
    have "merge_rows (k + 2) 2 prices ws (2 + i, k + 2) = merge_row (k + 2) (2 + i) (prices ! i) ws (2 + i, k + 2)"
      using i by (rule merge_rows_at)
    also have "\<dots> = ws (2 + i, k + 2)"
      using n by (simp add: merge_row_def ws_cell_def Let_def split: cellval.split)
    finally show "merge_rows (k + 2) 2 prices ws (i + 2, k + 2) = ws (i + 2, k + 2)"
      by (simp only: add.commute [of 2 i])
  qed
qed

text \<open>The slot 10:00 AM after a merge of 2.675 for AAPL and nothing for AMGN: the cell of
  AAPL holds 2.68, which has two decimal places and is not negative, and the cell of AMGN
  is as it was.\<close>

theorem slot_cells_rounded_witness:
  "cval (merge_rows (1 + 2) 2 [Some (2675 / 1000), None] new_workbook (2, 3)) = Num (67 / 25)
   \<and> is_2dp (67 / 25) \<and> (0::rat) \<le> 67 / 25
   \<and> merge_rows (1 + 2) 2 [Some (2675 / 1000), None] new_workbook (1 + 2, 1 + 2) = new_workbook (1 + 2, 1 + 2)"
proof -
  let ?ws = "merge_rows (1 + 2) 2 [Some (2675 / 1000), None] new_workbook"
  have "list_all (\<lambda>p. case p of None \<Rightarrow> True | Some x \<Rightarrow> 0 \<le> x) [Some (2675 / 1000 :: rat), None]"
    by simp
  from sheets_from.merged [OF sheets_from.created index_of_second_label this]
  have reach: "sheets_from (\<lambda>x. 0 \<le> x) ?ws" .
  have v: "cval (?ws (2, 3)) = Num (67 / 25)" by code_simp
  have le: "(2::nat) \<le> 2" "(2::nat) \<le> 3" by simp_all
  note t = slot_cells_rounded [OF reach le, THEN conjunct1, unfolded v cellval.case]
  from t have a: "is_2dp (67 / 25) \<and> (0::rat) \<le> 67 / 25" by blast
  have "(1::nat) < length [Some (2675 / 1000 :: rat), None]"
    and "[Some (2675 / 1000 :: rat), None] ! 1 = None" by simp_all
  with slot_cells_rounded [OF sheets_from.created le(1) le(1), of "\<lambda>x. 0 \<le> x", THEN conjunct2]
  have b: "merge_rows (1 + 2) 2 [Some (2675 / 1000), None] new_workbook (1 + 2, 1 + 2)
           = new_workbook (1 + 2, 1 + 2)"
    by blast
  show ?thesis using v a b by blast
qed

section \<open>Exceptions in a fetch\<close>












section \<open>Lookups that fail for some symbols\<close>

lemma fetched_cell:
  assumes "collect (map f TICKERS) = Inr prices" and "i < length TICKERS"
  shows "cval (merge_rows (k + 2) 2 prices
            (case st of None \<Rightarrow> new_workbook | Some ws \<Rightarrow> ws) (i + 2, k + 2))
         = (case f (TICKERS ! i) of
              Inr (Some x) \<Rightarrow> Num (py_round2 x)
            | _ \<Rightarrow> (case st of None \<Rightarrow> Blank | Some ws \<Rightarrow> cval (ws (i + 2, k + 2))))"
proof -
  let ?W = "case st of None \<Rightarrow> new_workbook | Some ws \<Rightarrow> ws"
  have len: "length prices = length TICKERS" using assms(1) by (rule collect_map_nth(1))
  have f: "f (TICKERS ! i) = Inr (prices ! i)" using assms by (intro collect_map_nth(2))
  have W: "cval (?W (i + 2, k + 2)) = (case st of None \<Rightarrow> Blank | Some ws \<Rightarrow> cval (ws (i + 2, k + 2)))"
    by (cases st) (simp_all add: new_workbook_slot blank_cell_def)
  have "cval (merge_rows (k + 2) 2 prices ?W (i + 2, k + 2))
        = (case prices ! i of None \<Rightarrow> cval (?W (i + 2, k + 2)) | Some x \<Rightarrow> Num (py_round2 x))"
    using assms(2) len by (simp add: merge_rows_cval split: option.split)
  then show ?thesis unfolding W f by (cases "prices ! i") simp_all
qed

lemma TICKERS_1: "TICKERS ! 1 = ''AMGN''"
  by (simp add: TICKERS_def)

text \<open>
  Claim C4, as stated, fails: a lookup that raises, other than from the fallback request
  of the second file, leaves \<open>_get\<close>, makes \<open>list(map(...))\<close> raise and ends the body of
  \<open>_fetch\<close> before anything is written. In a world where the first request for AAPL
  raises and AMGN is answered with 50, a live fetch of the slot 10:00 AM leaves the saved
  workbook as created, the cell of AMGN blank, in both files.
\<close>

theorem one_failure_aborts_batch_counterexample:
  "snd (get_orig (failing_world 7 ''AAPL'' 50) False None ''AMGN'') = Inr (Some 50)
   \<and> store (fetch_orig (failing_world 7 ''AAPL'' 50) ''10:00 AM'' False None (saved 7 new_workbook)) 7
       = Some new_workbook
   \<and> snd (get_fixed (failing_world 7 ''AAPL'' 50) False None ''AMGN'') = Inr (Some 50)
   \<and> store (fetch_fixed (failing_world 7 ''AAPL'' 50) ''10:00 AM'' False None (saved 7 new_workbook)) 7
       = Some new_workbook
   \<and> cval (new_workbook (3, 3)) = Blank"
proof -
  let ?e = "failing_world 7 ''AAPL'' 50"
  have go: "snd (get_orig ?e False None ''AMGN'') = Inr (Some 50)"
    by (simp add: get_orig_def live_orig_def failing_world_def truthy_price_def)
  have gf: "snd (get_fixed ?e False None ''AMGN'') = Inr (Some 50)"
    by (simp add: get_fixed_def live_fixed_def failing_world_def)
  have "fetch_try_orig ?e ''10:00 AM'' False None (saved 7 new_workbook)
        = (saved 7 new_workbook, Some NetworkError)"
    by (simp add: fetch_try_orig_def TICKERS_def get_orig_def live_orig_def failing_world_def)
  then have so: "store (fetch_orig ?e ''10:00 AM'' False None (saved 7 new_workbook)) 7 = Some new_workbook"
    by (simp add: fetch_orig_def print_exc_store saved_def)
  have "fetch_try_fixed ?e ''10:00 AM'' False None (saved 7 new_workbook)
        = (saved 7 new_workbook, Some NetworkError)"
    by (simp add: fetch_try_fixed_def hist_dt_fixed_def TICKERS_def get_fixed_def live_fixed_def failing_world_def)
  then have sf: "store (fetch_fixed ?e ''10:00 AM'' False None (saved 7 new_workbook)) 7 = Some new_workbook"
    by (simp add: fetch_fixed_def print_exc_store saved_def)
  have b: "cval (new_workbook (3, 3)) = Blank"
    by (simp add: new_workbook_slot blank_cell_def)
  show ?thesis using go gf so sf b by blast
qed

text \<open>
  Claim C4, amended: for every call of \<open>_fetch\<close> with a known label and a disk that can be
  written, in which no lookup raises out of \<open>_get\<close> (each returns a price or nothing),
  the merge writes the rounded price of every symbol whose lookup returned one and
  leaves the cell of every other symbol as it was (blank in a new workbook). In the
  second file a failure of the fallback request does not raise out of \<open>_get\<close>: when the
  first source has no price, \<open>_get\<close> returns the price of the fallback answer, or
  nothing when the fallback raised or held no result.
\<close>

theorem partial_failure_batch:
  assumes "index_of lbl (map snd HOURS) = Some k" and "disk_ok e" and "i < length TICKERS"
  shows "((\<forall>symb \<in> set TICKERS. \<exists>p. snd (get_orig e u dt symb) = Inr p) \<longrightarrow>
           (\<exists>ws'. store (fetch_orig e lbl u dt s) (today e) = Some ws'
              \<and> cval (ws' (i + 2, k + 2))
                 = (case snd (get_orig e u dt (TICKERS ! i)) of
                      Inr (Some x) \<Rightarrow> Num (py_round2 x)
                    | _ \<Rightarrow> (case store s (today e) of
                              None \<Rightarrow> Blank | Some ws \<Rightarrow> cval (ws (i + 2, k + 2))))))
       \<and> (hist_dt_fixed e lbl u dt = Inr hdt
           \<and> (\<forall>symb \<in> set TICKERS. \<exists>p. snd (get_fixed e u hdt symb) = Inr p) \<longrightarrow>
           (\<exists>ws'. store (fetch_fixed e lbl u dt s) (today e) = Some ws'
              \<and> cval (ws' (i + 2, k + 2))
                 = (case snd (get_fixed e u hdt (TICKERS ! i)) of
                      Inr (Some x) \<Rightarrow> Num (py_round2 x)
                    | _ \<Rightarrow> (case store s (today e) of
                              None \<Rightarrow> Blank | Some ws \<Rightarrow> cval (ws (i + 2, k + 2))))))
       \<and> (info_price e symb = Inr None \<longrightarrow>
           snd (get_fixed e False dt symb)
           = Inr (case quote e symb of Inr (Some (p # rest)) \<Rightarrow> p | _ \<Rightarrow> None))"
proof (intro conjI impI)
  assume "\<forall>symb \<in> set TICKERS. \<exists>p. snd (get_orig e u dt symb) = Inr p"
  then obtain prices where c: "collect (map (\<lambda>symb. snd (get_orig e u dt symb)) TICKERS) = Inr prices"
    using collect_total [of TICKERS "\<lambda>symb. snd (get_orig e u dt symb)"] by blast
  have "store (fetch_orig e lbl u dt s) (today e)
        = Some (merge_rows (k + 2) 2 prices (case store s (today e) of None \<Rightarrow> new_workbook | Some ws \<Rightarrow> ws))"
    by (simp add: fetch_orig_ok [OF c assms(1,2)])
  then show "\<exists>ws'. store (fetch_orig e lbl u dt s) (today e) = Some ws'
              \<and> cval (ws' (i + 2, k + 2))
                 = (case snd (get_orig e u dt (TICKERS ! i)) of
                      Inr (Some x) \<Rightarrow> Num (py_round2 x)
                    | _ \<Rightarrow> (case store s (today e) of
                              None \<Rightarrow> Blank | Some ws \<Rightarrow> cval (ws (i + 2, k + 2))))"
    using fetched_cell [OF c assms(3), of k "store s (today e)"] by simp
next
  assume a: "hist_dt_fixed e lbl u dt = Inr hdt
           \<and> (\<forall>symb \<in> set TICKERS. \<exists>p. snd (get_fixed e u hdt symb) = Inr p)"
  then obtain prices where c: "collect (map (\<lambda>symb. snd (get_fixed e u hdt symb)) TICKERS) = Inr prices"
    using collect_total [of TICKERS "\<lambda>symb. snd (get_fixed e u hdt symb)"] by blast
  have "store (fetch_fixed e lbl u dt s) (today e)
        = Some (merge_rows (k + 2) 2 prices (case store s (today e) of None \<Rightarrow> new_workbook | Some ws \<Rightarrow> ws))"
    using a by (simp add: fetch_fixed_ok [OF _ c assms(1,2)])
  then show "\<exists>ws'. store (fetch_fixed e lbl u dt s) (today e) = Some ws'
              \<and> cval (ws' (i + 2, k + 2))
                 = (case snd (get_fixed e u hdt (TICKERS ! i)) of
                      Inr (Some x) \<Rightarrow> Num (py_round2 x)
                    | _ \<Rightarrow> (case store s (today e) of
                              None \<Rightarrow> Blank | Some ws \<Rightarrow> cval (ws (i + 2, k + 2))))"
    using fetched_cell [OF c assms(3), of k "store s (today e)"] by simp
next
  assume "info_price e symb = Inr None"
  then show "snd (get_fixed e False dt symb)
           = Inr (case quote e symb of Inr (Some (p # rest)) \<Rightarrow> p | _ \<Rightarrow> None)"
    by (simp add: get_fixed_def live_fixed_def split: sum.split option.split list.split)
qed

text \<open>AAPL has no price (in the second file its fallback request raises), AMGN is answered
  with 50: after a live fetch of the slot 10:00 AM the cell of AAPL is blank and the cell
  of AMGN holds 50, in both files.\<close>

theorem partial_failure_batch_witness:
  "(\<exists>ws'. store (fetch_orig (partial_world 7 ''AAPL'' 50 (Inr (Some [None]))) ''10:00 AM'' False None
              nothing_saved) 7 = Some ws'
          \<and> cval (ws' (0 + 2, 1 + 2)) = Blank)
   \<and> (\<exists>ws'. store (fetch_orig (partial_world 7 ''AAPL'' 50 (Inr (Some [None]))) ''10:00 AM'' False None
              nothing_saved) 7 = Some ws'
          \<and> cval (ws' (1 + 2, 1 + 2)) = Num 50)
   \<and> (\<exists>ws'. store (fetch_fixed (partial_world 7 ''AAPL'' 50 (Inl NetworkError)) ''10:00 AM'' False None
              nothing_saved) 7 = Some ws'
          \<and> cval (ws' (0 + 2, 1 + 2)) = Blank)
   \<and> (\<exists>ws'. store (fetch_fixed (partial_world 7 ''AAPL'' 50 (Inl NetworkError)) ''10:00 AM'' False None
              nothing_saved) 7 = Some ws'
          \<and> cval (ws' (1 + 2, 1 + 2)) = Num 50)
   \<and> snd (get_fixed (partial_world 7 ''AAPL'' 50 (Inl NetworkError)) False None ''AAPL'') = Inr None"
proof -
  let ?o = "partial_world 7 ''AAPL'' 50 (Inr (Some [None]))"
  let ?f = "partial_world 7 ''AAPL'' 50 (Inl NetworkError)"
  have r: "py_round2 50 = 50" by code_simp
  have d: "disk_ok ?o" "disk_ok ?f" "today ?o = 7" "today ?f = 7" "store nothing_saved 7 = None"
    by (simp_all add: partial_world_def nothing_saved_def)
  have i: "0 < length TICKERS" "1 < length TICKERS" by (simp_all add: length_TICKERS)
  have ao: "\<forall>symb \<in> set TICKERS. \<exists>p. snd (get_orig ?o False None symb) = Inr p"
    by (simp add: get_orig_def live_orig_def partial_world_def truthy_price_def)
  have h: "hist_dt_fixed ?f ''10:00 AM'' False None = Inr None"
    by (simp add: hist_dt_fixed_def)
  have "\<forall>symb \<in> set TICKERS. \<exists>p. snd (get_fixed ?f False None symb) = Inr p"
    by (simp add: get_fixed_def live_fixed_def partial_world_def)
  with h have af: "hist_dt_fixed ?f ''10:00 AM'' False None = Inr None
            \<and> (\<forall>symb \<in> set TICKERS. \<exists>p. snd (get_fixed ?f False None symb) = Inr p)" ..
  have go: "snd (get_orig ?o False None (TICKERS ! 0)) = Inr None"
    "snd (get_orig ?o False None (TICKERS ! 1)) = Inr (Some 50)"
    unfolding TICKERS_0 TICKERS_1
    by (simp_all add: get_orig_def live_orig_def partial_world_def truthy_price_def)
  have gf: "snd (get_fixed ?f False None (TICKERS ! 0)) = Inr None"
    "snd (get_fixed ?f False None (TICKERS ! 1)) = Inr (Some 50)"
    unfolding TICKERS_0 TICKERS_1
    by (simp_all add: get_fixed_def live_fixed_def partial_world_def)
  have ip: "info_price ?f ''AAPL'' = Inr None" by (simp add: partial_world_def)
  have q: "quote ?f ''AAPL'' = Inl NetworkError" by (simp add: partial_world_def)
  note o0 = partial_failure_batch [OF index_of_second_label d(1) i(1), where u = False and dt = None
      and s = nothing_saved, THEN conjunct1, THEN mp, OF ao]
  note o1 = partial_failure_batch [OF index_of_second_label d(1) i(2), where u = False and dt = None
      and s = nothing_saved, THEN conjunct1, THEN mp, OF ao]
  note f0 = partial_failure_batch [OF index_of_second_label d(2) i(1), where u = False and dt = None
      and s = nothing_saved and hdt = None, THEN conjunct2, THEN conjunct1, THEN mp, OF af]
  note f1 = partial_failure_batch [OF index_of_second_label d(2) i(2), where u = False and dt = None
      and s = nothing_saved and hdt = None, THEN conjunct2, THEN conjunct1, THEN mp, OF af]
  note f2 = partial_failure_batch [OF index_of_second_label d(2) i(1), where dt = None
      and symb = "''AAPL''", THEN conjunct2, THEN conjunct2, THEN mp, OF ip]
  show ?thesis
    using o0 o1 f0 f1 f2 unfolding go gf d q by (simp add: r)
qed

section \<open>The historical lookup\<close>

text \<open>
  Claim C3, as stated, fails: the window \<open>_get\<close> queries runs from one minute before
  \<open>hist_dt\<close> to one minute after it, so it is two minutes wide, not one (both files). And
  in \<^verbatim>\<open>DOW30_Excel_Dashboard.py\<close> an empty window is followed by the live requests.
\<close>

theorem window_two_minutes_counterexample:
  "fst (get_orig (priced_world 7 50) True (Some (combine 7 10)) ''AAPL'')
     = [HistoryCall ''AAPL'' (combine 7 10 - timedelta_minutes 1) (combine 7 10 + timedelta_minutes 1)]
   \<and> fst (get_fixed (priced_world 7 50) True (Some (combine 7 10)) ''AAPL'')
     = [HistoryCall ''AAPL'' (combine 7 10 - timedelta_minutes 1) (combine 7 10 + timedelta_minutes 1)]
   \<and> (combine 7 10 + timedelta_minutes 1) - (combine 7 10 - timedelta_minutes 1) = timedelta_minutes 2
   \<and> timedelta_minutes 2 \<noteq> timedelta_minutes 1
   \<and> fst (get_orig (absent_world 7) True (Some (combine 7 10)) ''AAPL'')
     = [HistoryCall ''AAPL'' (combine 7 10 - timedelta_minutes 1) (combine 7 10 + timedelta_minutes 1),
        InfoCall ''AAPL'', QuoteCall ''AAPL'']"
  by (simp add: get_orig_def get_fixed_def live_orig_def priced_world_def absent_world_def
      timedelta_minutes_def usec_per_minute_def Let_def)

text \<open>
  Claim C3, amended: in historical mode, when the history request returns, \<open>_get\<close> has
  queried for the symbol only the window from one minute before to one minute after
  \<open>hist_dt\<close> (two minutes wide, centred on \<open>hist_dt\<close>); if the window holds samples it
  returns the close of the chronologically last one (both files); and in
  \<^verbatim>\<open>DOW30_Excel_Dashboard_fixed.py\<close>, if the window is empty, the sample is absent and no
  further request, in particular no live quote, is made for the symbol.
\<close>

theorem historical_lookup:
  assumes "history e symb (dt - timedelta_minutes 1) (dt + timedelta_minutes 1) = Inr df"
  shows "(df \<noteq> [] \<longrightarrow>
           get_orig e True (Some dt) symb
             = ([HistoryCall symb (dt - timedelta_minutes 1) (dt + timedelta_minutes 1)],
                Inr (Some (snd (last df))))
           \<and> get_fixed e True (Some dt) symb
             = ([HistoryCall symb (dt - timedelta_minutes 1) (dt + timedelta_minutes 1)],
                Inr (Some (snd (last df)))))
       \<and> (df = [] \<longrightarrow>
           get_fixed e True (Some dt) symb
             = ([HistoryCall symb (dt - timedelta_minutes 1) (dt + timedelta_minutes 1)], Inr None))
       \<and> (dt + timedelta_minutes 1) - (dt - timedelta_minutes 1) = timedelta_minutes 2
       \<and> (dt + timedelta_minutes 1) - dt = dt - (dt - timedelta_minutes 1)"
  using assms
  by (simp add: get_orig_def get_fixed_def Let_def timedelta_minutes_def)

text \<open>A window with one sample of 50 gives 50 after the one history request, in both
  files; an empty window gives nothing after the one history request, in the second.\<close>

theorem historical_lookup_witness:
  "get_orig (priced_world 7 50) True (Some (combine 7 10)) ''AAPL''
     = ([HistoryCall ''AAPL'' (combine 7 10 - timedelta_minutes 1) (combine 7 10 + timedelta_minutes 1)],
        Inr (Some 50))
   \<and> get_fixed (priced_world 7 50) True (Some (combine 7 10)) ''AAPL''
     = ([HistoryCall ''AAPL'' (combine 7 10 - timedelta_minutes 1) (combine 7 10 + timedelta_minutes 1)],
        Inr (Some 50))
   \<and> get_fixed (absent_world 7) True (Some (combine 7 10)) ''AAPL''
     = ([HistoryCall ''AAPL'' (combine 7 10 - timedelta_minutes 1) (combine 7 10 + timedelta_minutes 1)],
        Inr None)"
proof -
  have p: "history (priced_world 7 50) ''AAPL'' (combine 7 10 - timedelta_minutes 1)
             (combine 7 10 + timedelta_minutes 1) = Inr [(combine 7 10 - timedelta_minutes 1, 50)]"
    by (simp add: priced_world_def)
  have a: "history (absent_world 7) ''AAPL'' (combine 7 10 - timedelta_minutes 1)
             (combine 7 10 + timedelta_minutes 1) = Inr []"
    by (simp add: absent_world_def)
  from historical_lookup [OF p] historical_lookup [OF a] show ?thesis by simp
qed

section \<open>The scheduler\<close>

lemma hist_dt_reached: "combine (date_of now) h \<le> now \<longleftrightarrow> h \<le> hour_of now"
proof -
  let ?D = "usec_per_day" and ?H = "usec_per_hour"
  let ?m = "now mod ?D"
  have H: "0 < ?H" and D: "0 < ?D" by (simp_all add: usec_per_hour_def usec_per_day_def)
  have m: "0 \<le> ?m" using D by simp
  have now: "now = (now div ?D) * ?D + ?m" by simp
  have "combine (date_of now) h \<le> now \<longleftrightarrow> int h * ?H \<le> ?m"
    unfolding combine_def date_of_def using now by linarith
  also have "\<dots> \<longleftrightarrow> int h \<le> ?m div ?H"
  proof
    assume "int h * ?H \<le> ?m"
    then have "(int h * ?H) div ?H \<le> ?m div ?H" using H by (intro zdiv_mono1) simp_all
    then show "int h \<le> ?m div ?H" using H by simp
  next
    assume "int h \<le> ?m div ?H"
    then have "int h * ?H \<le> (?m div ?H) * ?H" using H by (intro mult_right_mono) simp_all
    also have "\<dots> \<le> ?m"
    proof -
      have "?m = (?m div ?H) * ?H + ?m mod ?H" by simp
      moreover have "0 \<le> ?m mod ?H" using H by simp
      ultimately show ?thesis by linarith
    qed
    finally show "int h * ?H \<le> ?m" .
  qed
  also have "\<dots> \<longleftrightarrow> h \<le> hour_of now"
  proof -
    have "0 \<le> ?m div ?H" using m H by (simp add: pos_imp_zdiv_nonneg_iff)
    then show ?thesis unfolding hour_of_def by linarith
  qed
  finally show ?thesis .
qed

lemma concat_map_if:
  "concat (map (\<lambda>x. if P x then [f x] else []) xs) = map f (filter P xs)"
  by (induction xs) simp_all

lemma backfill_orig_eq:
  "backfill_orig now =
     map (\<lambda>(h, lbl). FetchCall lbl True (Some (combine (date_of now) h)))
       (filter (\<lambda>(h, lbl). h \<le> hour_of now) HOURS)"
proof -
  have "backfill_orig now =
      concat (map (\<lambda>x. if (case x of (h, lbl) \<Rightarrow> h \<le> hour_of now)
                         then [case x of (h, lbl) \<Rightarrow> FetchCall lbl True (Some (combine (date_of now) h))]
                         else []) HOURS)"
    unfolding backfill_orig_def Let_def
    by (intro arg_cong [where f = concat] map_cong refl) (auto simp: hist_dt_reached)
  then show ?thesis by (simp only: concat_map_if)
qed

lemma backfill_fixed_eq: "backfill_fixed now = backfill_orig now"
  by (simp add: backfill_fixed_def backfill_orig_def)

lemma hour_of_1315: "hour_of (combine d 13 + timedelta_minutes 15) = 13"
  by (simp add: hour_of_def combine_def timedelta_minutes_def usec_per_day_def usec_per_hour_def
      usec_per_minute_def)

lemma date_of_1315: "date_of (combine d 13 + timedelta_minutes 15) = d"
  by (simp add: date_of_def combine_def timedelta_minutes_def usec_per_day_def usec_per_hour_def
      usec_per_minute_def)

lemma jobs_orig_at:
  "jobs_orig now = jobs_at (\<lambda>h lbl. HistJobOrig lbl (combine (date_of now) h))
     (schedule_next_run now 0) (schedule_next_run now)"
  by (simp add: jobs_orig_def jobs_at_def every_day_at_def)

lemma jobs_fixed_at:
  "jobs_fixed now = jobs_at (\<lambda>h lbl. HistJobFixed lbl h)
     (schedule_next_run now 0) (schedule_next_run now)"
  by (simp add: jobs_fixed_def jobs_at_def every_day_at_def)

lemma reschedule_jobs_at:
  "map (reschedule t) (jobs_at hist m n) =
     jobs_at hist (if m \<le> t then schedule_next_run t 0 else m)
       (\<lambda>h. if n h \<le> t then schedule_next_run t h else n h)"
  by (simp add: jobs_at_def reschedule_def should_run_def split_def)

lemma run_loop_jobs_at:
  "run_loop fetch polls (jobs_at hist m n) s = Inr (jobs', s') \<Longrightarrow> \<exists>m' n'. jobs' = jobs_at hist m' n'"
proof (induction polls arbitrary: m n s)
  case Nil
  then show ?case by auto
next
  case (Cons p polls)
  obtain e t where p: "p = (e, t)" by (cases p)
  from Cons.prems obtain s1 where
    "run_loop fetch polls (map (reschedule t) (jobs_at hist m n)) s1 = Inr (jobs', s')"
    by (auto simp: p run_pending_def split: sum.splits)
  then show ?case unfolding reschedule_jobs_at by (rule Cons.IH)
qed

lemma length_filter_map_filter:
  "length (filter Q (List.map_filter f xs)) = length (filter (\<lambda>x. case f x of None \<Rightarrow> False | Some y \<Rightarrow> Q y) xs)"
  by (induction xs) (simp_all add: map_filter_simps split: option.split)

lemma length_filter_sort_key:
  "length (filter R (sort_key k xs)) = length (filter R xs)"
  by (simp add: filter_sort)

lemma count_due_calls:
  "length (filter Q (due_calls e t jobs))
   = length (filter (\<lambda>j. (case job_call e (func j) of None \<Rightarrow> False | Some c \<Rightarrow> Q c) \<and> should_run t j) jobs)"
  by (simp add: due_calls_def due_jobs_def length_filter_map_filter length_filter_sort_key conj_commute)

lemma count_slot:
  assumes "(h, lbl) \<in> set HOURS"
  shows "length (filter (\<lambda>(h', l). l = lbl \<and> P h') HOURS) = (if P h then 1 else 0)"
proof -
  from assms consider "h = 9 \<and> lbl = ''9:31 AM''" | "h = 10 \<and> lbl = ''10:00 AM''"
    | "h = 11 \<and> lbl = ''11:00 AM''" | "h = 12 \<and> lbl = ''12 NOON''"
    | "h = 13 \<and> lbl = ''1:00 PM''" | "h = 14 \<and> lbl = ''2:00 PM''"
    | "h = 15 \<and> lbl = ''3:00 PM''" | "h = 16 \<and> lbl = ''4:00 PM''"
    unfolding HOURS_def by fastforce
  then show ?thesis by cases (simp_all add: HOURS_def)
qed

lemma count_due_jobs_at:
  assumes "(h, lbl) \<in> set HOURS"
    and hist: "\<And>h' l. \<exists>c. job_call e (hist h' l) = Some c \<and> call_label c = l"
  shows "length (filter (\<lambda>c. call_label c = lbl) (due_calls e t (jobs_at hist m n)))
         = (if n h \<le> t then 2 else 0)"
proof -
  let ?R = "\<lambda>j. (case job_call e (func j) of None \<Rightarrow> False | Some c \<Rightarrow> call_label c = lbl) \<and> should_run t j"
  let ?S = "\<lambda>(h', l). l = lbl \<and> n h' \<le> t"
  have h: "(case job_call e (hist h' l) of None \<Rightarrow> False | Some c \<Rightarrow> call_label c = lbl) \<longleftrightarrow> l = lbl" for h' l
    using hist [of h' l] by auto
  have a: "length (filter ?R (map (\<lambda>(h', l). \<lparr>at_hour = h', next_run = n h', func = hist h' l\<rparr>) HOURS))
           = length (filter ?S HOURS)"
    unfolding length_filter_map
    by (intro arg_cong [where f = length] filter_cong refl) (auto simp: h should_run_def)
  have b: "length (filter ?R (map (\<lambda>(h', l). \<lparr>at_hour = h', next_run = n h', func = LiveJob l\<rparr>) HOURS))
           = length (filter ?S HOURS)"
    unfolding length_filter_map
    by (intro arg_cong [where f = length] filter_cong refl) (auto simp: should_run_def)
  have c: "\<not> ?R \<lparr>at_hour = 0, next_run = m, func = EnsureJob\<rparr>" by simp
  have "length (filter (\<lambda>c. call_label c = lbl) (due_calls e t (jobs_at hist m n)))
        = length (filter ?S HOURS) + length (filter ?S HOURS)"
    unfolding count_due_calls jobs_at_def filter.simps filter_append length_append
    using a b c by simp
  then show ?thesis using count_slot [OF assms(1), of "\<lambda>h'. n h' \<le> t"] by simp
qed

lemma count_backfill:
  assumes "(h, lbl) \<in> set HOURS"
  shows "length (filter (\<lambda>c. call_label c = lbl) (backfill_orig now)) = (if h \<le> hour_of now then 1 else 0)"
proof -
  have "length (filter (\<lambda>c. call_label c = lbl) (backfill_orig now))
        = length (filter (\<lambda>(h', l). l = lbl \<and> h' \<le> hour_of now) HOURS)"
    unfolding backfill_orig_eq length_filter_map filter_filter
    by (intro arg_cong [where f = length] filter_cong refl) auto
  then show ?thesis using count_slot [OF assms, of "\<lambda>h'. h' \<le> hour_of now"] by simp
qed

lemma time_reached: "int h * usec_per_hour \<le> time_of now \<longleftrightarrow> h \<le> hour_of now"
proof -
  have "combine (date_of now) h \<le> now \<longleftrightarrow> int h * usec_per_hour \<le> time_of now"
  proof -
    have "now = (now div usec_per_day) * usec_per_day + now mod usec_per_day" by simp
    then show ?thesis unfolding combine_def date_of_def time_of_def by linarith
  qed
  then show ?thesis using hist_dt_reached [of now h] by simp
qed

lemma schedule_next_run_pending:
  "hour_of now < h \<Longrightarrow> schedule_next_run now h = combine (date_of now) h"
  using time_reached [of h now] by (simp add: schedule_next_run_def)

lemma schedule_next_run_passed:
  "h \<le> hour_of now \<Longrightarrow> schedule_next_run now h = combine (date_of now + 1) h"
  using time_reached [of h now] by (simp add: schedule_next_run_def)


lemma mem_HOURS_9: "(9, ''9:31 AM'') \<in> set HOURS"
  by (simp add: HOURS_def)

lemma mem_HOURS_14: "(14, ''2:00 PM'') \<in> set HOURS"
  by (simp add: HOURS_def)

subsection \<open>Startup\<close>



subsection \<open>Fetches per slot\<close>

text \<open>
  Claim C2, as stated, fails: every slot has two recurring jobs at its hour, a historical
  one and a live one, and both run when the hour comes. Started at 08:00 on day 100, the
  poll at 09:00 of that day calls \<open>_fetch\<close> for the slot 9:31 AM twice, in both files.
\<close>

theorem two_fetches_per_slot_counterexample:
  "due_calls (absent_world 100) (combine 100 9) (jobs_orig (combine 100 8))
     = [FetchCall ''9:31 AM'' True (Some (combine 100 9)), FetchCall ''9:31 AM'' False None]
   \<and> due_calls (absent_world 100) (combine 100 9) (jobs_fixed (combine 100 8))
     = [FetchCall ''9:31 AM'' True (Some (combine 100 9)), FetchCall ''9:31 AM'' False None]"
  by code_simp

text \<open>
  Claim C2, amended: for every slot, startup executes the fetch of the slot exactly once
  when the slot's hour is at most the current hour and not at all otherwise (so every
  restart after the hour executes it once more); and whenever the recurring triggers of
  the slot come due, one poll executes the fetch of the slot exactly twice, first the
  historical job, then the live job: a poll right after startup does so exactly when the
  slot's next run has come, and any poll later in the run executes it either twice or
  not at all. Both files.
\<close>

theorem fetches_per_slot:
  assumes "(h, lbl) \<in> set HOURS"
  shows "length (filter (\<lambda>c. call_label c = lbl) (backfill_orig now)) = (if h \<le> hour_of now then 1 else 0)
     \<and> length (filter (\<lambda>c. call_label c = lbl) (backfill_fixed now)) = (if h \<le> hour_of now then 1 else 0)
     \<and> length (filter (\<lambda>c. call_label c = lbl) (due_calls e t (jobs_orig now)))
         = (if schedule_next_run now h \<le> t then 2 else 0)
     \<and> length (filter (\<lambda>c. call_label c = lbl) (due_calls e t (jobs_fixed now)))
         = (if schedule_next_run now h \<le> t then 2 else 0)
     \<and> (run_loop fetch_orig polls (jobs_orig now) s = Inr (jobs', s') \<longrightarrow>
          length (filter (\<lambda>c. call_label c = lbl) (due_calls e t jobs')) = 0
          \<or> length (filter (\<lambda>c. call_label c = lbl) (due_calls e t jobs')) = 2)
     \<and> (run_loop fetch_fixed polls (jobs_fixed now) s = Inr (jobs', s') \<longrightarrow>
          length (filter (\<lambda>c. call_label c = lbl) (due_calls e t jobs')) = 0
          \<or> length (filter (\<lambda>c. call_label c = lbl) (due_calls e t jobs')) = 2)"
proof (intro conjI impI)
  show "length (filter (\<lambda>c. call_label c = lbl) (backfill_orig now)) = (if h \<le> hour_of now then 1 else 0)"
    using assms by (rule count_backfill)
  then show "length (filter (\<lambda>c. call_label c = lbl) (backfill_fixed now)) = (if h \<le> hour_of now then 1 else 0)"
    by (simp add: backfill_fixed_eq)
  show "length (filter (\<lambda>c. call_label c = lbl) (due_calls e t (jobs_orig now)))
         = (if schedule_next_run now h \<le> t then 2 else 0)"
    unfolding jobs_orig_at using assms by (intro count_due_jobs_at) simp_all
  show "length (filter (\<lambda>c. call_label c = lbl) (due_calls e t (jobs_fixed now)))
         = (if schedule_next_run now h \<le> t then 2 else 0)"
    unfolding jobs_fixed_at using assms by (intro count_due_jobs_at) simp_all
next
  assume "run_loop fetch_orig polls (jobs_orig now) s = Inr (jobs', s')"
  then obtain m n where "jobs' = jobs_at (\<lambda>h lbl. HistJobOrig lbl (combine (date_of now) h)) m n"
    unfolding jobs_orig_at using run_loop_jobs_at by blast
  moreover have "length (filter (\<lambda>c. call_label c = lbl)
      (due_calls e t (jobs_at (\<lambda>h lbl. HistJobOrig lbl (combine (date_of now) h)) m n)))
      = (if n h \<le> t then 2 else 0)"
    using assms by (intro count_due_jobs_at) simp_all
  ultimately show "length (filter (\<lambda>c. call_label c = lbl) (due_calls e t jobs')) = 0
          \<or> length (filter (\<lambda>c. call_label c = lbl) (due_calls e t jobs')) = 2"
    by (cases "n h \<le> t") simp_all
next
  assume "run_loop fetch_fixed polls (jobs_fixed now) s = Inr (jobs', s')"
  then obtain m n where "jobs' = jobs_at (\<lambda>h lbl. HistJobFixed lbl h) m n"
    unfolding jobs_fixed_at using run_loop_jobs_at by blast
  moreover have "length (filter (\<lambda>c. call_label c = lbl)
      (due_calls e t (jobs_at (\<lambda>h lbl. HistJobFixed lbl h) m n)))
      = (if n h \<le> t then 2 else 0)"
    using assms by (intro count_due_jobs_at) simp_all
  ultimately show "length (filter (\<lambda>c. call_label c = lbl) (due_calls e t jobs')) = 0
          \<or> length (filter (\<lambda>c. call_label c = lbl) (due_calls e t jobs')) = 2"
    by (cases "n h \<le> t") simp_all
qed

text \<open>Started at 13:15 on day 100: one startup fetch of 9:31 AM, none of 2:00 PM, and two
  fetches of 2:00 PM in the poll at 14:00.\<close>

theorem fetches_per_slot_witness:
  "length (filter (\<lambda>c. call_label c = ''9:31 AM'') (backfill_orig (combine 100 13 + timedelta_minutes 15))) = 1
   \<and> length (filter (\<lambda>c. call_label c = ''2:00 PM'') (backfill_orig (combine 100 13 + timedelta_minutes 15))) = 0
   \<and> length (filter (\<lambda>c. call_label c = ''2:00 PM'')
        (due_calls (absent_world 100) (combine 100 14) (jobs_fixed (combine 100 13 + timedelta_minutes 15)))) = 2"
proof -
  have n: "schedule_next_run (combine 100 13 + timedelta_minutes 15) 14 = combine 100 14"
    by (simp add: schedule_next_run_pending hour_of_1315 date_of_1315)
  from fetches_per_slot [OF mem_HOURS_9, of "combine 100 13 + timedelta_minutes 15"]
    fetches_per_slot [OF mem_HOURS_14, of "combine 100 13 + timedelta_minutes 15" "absent_world 100" "combine 100 14"]
  show ?thesis by (simp add: hour_of_1315 n)
qed

subsection \<open>The timestamp of a recurring historical job\<close>

text \<open>
  Claim C5 holds of \<^verbatim>\<open>DOW30_Excel_Dashboard_fixed.py\<close> only. Started on day 100 at 17:00,
  the historical job of the slot 9:31 AM that runs at 09:00 on day 101 queries the window
  around 09:00 of day 100 in \<^verbatim>\<open>DOW30_Excel_Dashboard.py\<close>, whose lambda captured the
  timestamp at startup, and around 09:00 of day 101 in the second file, which computes
  the timestamp when the job runs.
\<close>

theorem stale_hist_dt_in_first_file:
  "due_calls (absent_world 101) (combine 101 9) (jobs_orig (combine 100 17))
     = [FetchCall ''9:31 AM'' True (Some (combine 100 9)), FetchCall ''9:31 AM'' False None]
   \<and> due_calls (absent_world 101) (combine 101 9) (jobs_fixed (combine 100 17))
     = [FetchCall ''9:31 AM'' True (Some (combine 101 9)), FetchCall ''9:31 AM'' False None]
   \<and> combine 100 9 \<noteq> combine 101 9"
  by code_simp

end
